theory Spec2Isabelle
  imports Main "HOL-Library.AList"
begin

section \<open>Order reconciliation: PUT /orders-by-number/:order_no\<close>

text \<open>
  The repository has two handlers for the route: the one of \<^verbatim>\<open>src/test.js\<close> (a transaction
  written out statement by statement on one connection) and the one of
  \<^verbatim>\<open>src/routes/orders.js\<close> (a list of operations handed to
  \<^verbatim>\<open>OracleService.executeTransaction\<close>). Both are embedded below, over one model of the
  \<^verbatim>\<open>orders\<close> table.
\<close>

subsection \<open>Request data\<close>

text \<open>
  A JSON value of a request body. Numbers are integers here: the ids, the counts and the
  comparisons the handlers make on them are integral.
\<close>

datatype jsval = JNull | JBool bool | JNum int | JStr string

text \<open>JavaScript truthiness, as used by \<^verbatim>\<open>x || d\<close>.\<close>

fun truthy :: "jsval \<Rightarrow> bool" where
  "truthy JNull = False"
| "truthy (JBool b) = b"
| "truthy (JNum n) = (n \<noteq> 0)"
| "truthy (JStr s) = (s \<noteq> [])"

text \<open>
  One element of the request body: its \<^verbatim>\<open>id\<close> property (\<open>None\<close> when absent or null), the
  truthiness of its \<^verbatim>\<open>_deleted\<close> property, and its other own properties in key order (what
  \<^verbatim>\<open>const { id, _deleted, ...fields } = item\<close> leaves in \<^verbatim>\<open>fields\<close>).
\<close>

record item =
  item_id :: "int option"
  item_deleted :: bool
  item_fields :: "(string \<times> jsval) list"

text \<open>\<^verbatim>\<open>item.id\<close> as a condition: absent, null and 0 are falsy.\<close>

definition has_id :: "item \<Rightarrow> bool" where
  "has_id i = (case item_id i of None \<Rightarrow> False | Some n \<Rightarrow> n \<noteq> 0)"

text \<open>\<^verbatim>\<open>item.id || 0\<close>, the sort key; for an item with a truthy id it is that id.\<close>

definition id_or_zero :: "item \<Rightarrow> int" where
  "id_or_zero i = (case item_id i of None \<Rightarrow> 0 | Some n \<Rightarrow> n)"

text \<open>\<^verbatim>\<open>item[field]\<close> for a field other than id and _deleted; \<open>None\<close> is undefined.\<close>

definition item_prop :: "item \<Rightarrow> string \<Rightarrow> jsval option" where
  "item_prop i f = map_of (item_fields i) f"

text \<open>\<^verbatim>\<open>item[field] || d\<close>.\<close>

definition js_or :: "jsval option \<Rightarrow> jsval \<Rightarrow> jsval" where
  "js_or v d = (case v of None \<Rightarrow> d | Some x \<Rightarrow> if truthy x then x else d)"

text \<open>
  \<^verbatim>\<open>[...req.body].sort((a, b) => (a.id || 0) - (b.id || 0))\<close>: ascending by the key, and
  stable (Array.prototype.sort is stable), as insertion sort by key is.
\<close>

definition sortItems :: "item list \<Rightarrow> item list" where
  "sortItems body = sort_key id_or_zero body"

definition itemsToInsert :: "item list \<Rightarrow> item list" where
  "itemsToInsert allItems = filter (\<lambda>i. \<not> has_id i \<and> \<not> item_deleted i) allItems"

definition itemsToUpdate :: "item list \<Rightarrow> item list" where
  "itemsToUpdate allItems = filter (\<lambda>i. has_id i \<and> \<not> item_deleted i) allItems"

definition itemsToDelete :: "item list \<Rightarrow> item list" where
  "itemsToDelete allItems = filter (\<lambda>i. item_deleted i \<and> has_id i) allItems"

text \<open>
  An order number is a JavaScript string: a list of UTF-16 code units, each an integer
  from 0 to 65535. The column names
  and the string values of the items are not inspected character by character and stay
  \<open>string\<close>s.
\<close>

type_synonym ustring = "int list"

text \<open>
  \<^verbatim>\<open>!order_no || order_no.trim() === ""\<close>: the string is empty or consists of what
  \<^verbatim>\<open>String.prototype.trim\<close> strips, the white space and line terminators of ECMAScript:
  U+0009 to U+000D, U+0020, U+00A0, U+1680, U+2000 to U+200A, U+2028, U+2029, U+202F,
  U+205F, U+3000 and U+FEFF.
\<close>

definition js_whitespace :: "int \<Rightarrow> bool" where
  "js_whitespace u =
     ((0x09 \<le> u \<and> u \<le> 0x0D) \<or> u = 0x20 \<or> u = 0xA0 \<or> u = 0x1680
      \<or> (0x2000 \<le> u \<and> u \<le> 0x200A) \<or> u = 0x2028 \<or> u = 0x2029 \<or> u = 0x202F
      \<or> u = 0x205F \<or> u = 0x3000 \<or> u = 0xFEFF)"

definition blank :: "ustring \<Rightarrow> bool" where
  "blank s = list_all js_whitespace s"

subsection \<open>The orders table and a connection to it\<close>

text \<open>
  A row of \<^verbatim>\<open>orders\<close>: the generated id, the order number and the other columns by name
  (\<open>JNull\<close> is SQL NULL). There is no header table: the order-level columns are on every row.
\<close>

record row =
  rid :: int
  rorder :: ustring
  rcols :: "string \<Rightarrow> jsval"

text \<open>
  The statements the two handlers issue, with their bind values. \<open>DeleteRows\<close> is the
  DELETE of \<^verbatim>\<open>src/routes/orders.js\<close>; \<open>DeleteReturning\<close> is the one of \<^verbatim>\<open>src/test.js\<close>, with
  \<^verbatim>\<open>RETURNING id, item_name INTO :ids, :names\<close>.
\<close>

datatype stmt =
    Begin
  | SelectCount ustring
  | SelectVerify "int list" ustring
  | DeleteRows "int list" ustring
  | DeleteReturning "int list" ustring
  | SelectItem int
  | UpdateRow "(string \<times> jsval) list" int ustring
  | InsertRow ustring "(string \<times> jsval) list"
  | UpdateCommon "(string \<times> jsval) list" ustring
  | Commit
  | SelectAll ustring

datatype sqlres =
    Done
  | Count nat
  | Ids "int list"
  | OrderNos "ustring list"
  | Affected nat
  | NewId int
  | Rows "row list"

fun res_count :: "sqlres \<Rightarrow> nat" where
  "res_count (Count n) = n"
| "res_count _ = 0"

fun res_ids :: "sqlres \<Rightarrow> int list" where
  "res_ids (Ids xs) = xs"
| "res_ids _ = []"

fun res_orders :: "sqlres \<Rightarrow> ustring list" where
  "res_orders (OrderNos xs) = xs"
| "res_orders _ = []"

fun res_affected :: "sqlres \<Rightarrow> nat" where
  "res_affected (Affected n) = n"
| "res_affected _ = 0"

fun res_rows :: "sqlres \<Rightarrow> row list" where
  "res_rows (Rows rs) = rs"
| "res_rows _ = []"

text \<open>
  A connection: the committed table (what every other connection sees), this connection's
  working copy (its uncommitted transaction), the id generator of the table, and the
  statements issued so far, oldest first.
\<close>

record conn =
  committed :: "row list"
  working :: "row list"
  next_id :: int
  issued :: "stmt list"

datatype error =
    OrderNumberRequired
  | NoDataProvided
  | OrderMissingNoItems ustring
  | CannotDelete "int list" ustring
  | ItemNotExist int
  | ItemWrongOrder int ustring ustring
  | NoRecordFound int ustring
  | StorageError nat

text \<open>\<^verbatim>\<open>SET c1 = v1, c2 = v2, ...\<close> on one row.\<close>

definition set_cols :: "(string \<times> jsval) list \<Rightarrow> row \<Rightarrow> row" where
  "set_cols sets r = r\<lparr>rcols := fold (\<lambda>(k, v) f. f(k := v)) sets (rcols r)\<rparr>"

definition in_ids :: "int list \<Rightarrow> ustring \<Rightarrow> row \<Rightarrow> bool" where
  "in_ids ids k r = (rid r \<in> set ids \<and> rorder r = k)"

text \<open>The effect of a statement the database accepts.\<close>

fun run_stmt :: "stmt \<Rightarrow> conn \<Rightarrow> sqlres \<times> conn" where
  "run_stmt Begin c = (Done, c)"
| "run_stmt (SelectCount k) c = (Count (length (filter (\<lambda>r. rorder r = k) (working c))), c)"
| "run_stmt (SelectVerify ids k) c = (Ids (map rid (filter (in_ids ids k) (working c))), c)"
| "run_stmt (DeleteRows ids k) c =
     (Affected (length (filter (in_ids ids k) (working c))),
      c\<lparr>working := filter (\<lambda>r. \<not> in_ids ids k r) (working c)\<rparr>)"
| "run_stmt (DeleteReturning ids k) c =
     (Ids (map rid (filter (in_ids ids k) (working c))),
      c\<lparr>working := filter (\<lambda>r. \<not> in_ids ids k r) (working c)\<rparr>)"
| "run_stmt (SelectItem i) c = (OrderNos (map rorder (filter (\<lambda>r. rid r = i) (working c))), c)"
| "run_stmt (UpdateRow sets i k) c =
     (Affected (length (filter (\<lambda>r. rid r = i \<and> rorder r = k) (working c))),
      c\<lparr>working := map (\<lambda>r. if rid r = i \<and> rorder r = k then set_cols sets r else r) (working c)\<rparr>)"
| "run_stmt (InsertRow k cols) c =
     (NewId (next_id c),
      c\<lparr>working := working c @ [set_cols cols \<lparr>rid = next_id c, rorder = k, rcols = (\<lambda>_. JNull)\<rparr>],
        next_id := next_id c + 1\<rparr>)"
| "run_stmt (UpdateCommon sets k) c =
     (Affected (length (filter (\<lambda>r. rorder r = k) (working c))),
      c\<lparr>working := map (\<lambda>r. if rorder r = k then set_cols sets r else r) (working c)\<rparr>)"
| "run_stmt Commit c = (Done, c\<lparr>committed := working c\<rparr>)"
| "run_stmt (SelectAll k) c = (Rows (sort_key rid (filter (\<lambda>r. rorder r = k) (working c))), c)"

text \<open>
  The bind placeholders of a statement's text and the bind values the handler passes with
  it. They agree everywhere but in the DELETE of \<^verbatim>\<open>src/test.js\<close>: its text has one
  placeholder per id, one for the order number, and \<^verbatim>\<open>:ids\<close> and \<^verbatim>\<open>:names\<close>, while the bind
  array is \<^verbatim>\<open>[...deleteIds, order_no]\<close>; the two out binds are given in the third argument
  of \<^verbatim>\<open>connection.execute\<close>, which is the options. (The INSERT of \<^verbatim>\<open>src/test.js\<close> has its
  out bind in the bind array: one placeholder and one value more than counted here.)
\<close>

fun placeholders :: "stmt \<Rightarrow> nat" where
  "placeholders Begin = 0"
| "placeholders (SelectCount k) = 1"
| "placeholders (SelectVerify ids k) = length ids + 1"
| "placeholders (DeleteRows ids k) = length ids + 1"
| "placeholders (DeleteReturning ids k) = length ids + 3"
| "placeholders (SelectItem i) = 1"
| "placeholders (UpdateRow sets i k) = length sets + 2"
| "placeholders (InsertRow k cols) = length cols + 1"
| "placeholders (UpdateCommon sets k) = length sets + 1"
| "placeholders Commit = 0"
| "placeholders (SelectAll k) = 1"

fun bind_values :: "stmt \<Rightarrow> nat" where
  "bind_values Begin = 0"
| "bind_values (SelectCount k) = 1"
| "bind_values (SelectVerify ids k) = length ids + 1"
| "bind_values (DeleteRows ids k) = length ids + 1"
| "bind_values (DeleteReturning ids k) = length ids + 1"
| "bind_values (SelectItem i) = 1"
| "bind_values (UpdateRow sets i k) = length sets + 2"
| "bind_values (InsertRow k cols) = length cols + 1"
| "bind_values (UpdateCommon sets k) = length sets + 1"
| "bind_values Commit = 0"
| "bind_values (SelectAll k) = 1"

text \<open>
  \<^verbatim>\<open>connection.execute\<close> and \<^verbatim>\<open>connection.commit\<close>. A statement with a placeholder that
  has no bind value is refused: the call raises. Otherwise the database may still raise on
  any call (a constraint, the connection, a statement it does not accept): \<open>F n\<close> says that
  it raises on the \<open>n\<close>-th call of this connection record. A call that raises changes no
  row.
\<close>

definition execute :: "(nat \<Rightarrow> bool) \<Rightarrow> stmt \<Rightarrow> conn \<Rightarrow> (error + sqlres) \<times> conn" where
  "execute F s c =
     (let n = length (issued c); c1 = c\<lparr>issued := issued c @ [s]\<rparr>
      in if F n \<or> placeholders s \<noteq> bind_values s then (Inl (StorageError n), c1)
         else (case run_stmt s c1 of (r, c2) \<Rightarrow> (Inr r, c2)))"

text \<open>\<^verbatim>\<open>pool.getConnection()\<close>: a connection starts on the committed table.\<close>

definition getConnection :: "conn \<Rightarrow> conn" where
  "getConnection c = c\<lparr>working := committed c\<rparr>"

definition rollback :: "conn \<Rightarrow> conn" where
  "rollback c = c\<lparr>working := committed c\<rparr>"

text \<open>\<^verbatim>\<open>connection.close()\<close>: what was not committed is dropped.\<close>

definition close :: "conn \<Rightarrow> conn" where
  "close c = c\<lparr>working := committed c\<rparr>"

subsection \<open>Sequencing with exceptions\<close>

type_synonym 'a action = "conn \<Rightarrow> (error + 'a) \<times> conn"

definition ret :: "'a \<Rightarrow> 'a action" where
  "ret a c = (Inr a, c)"

definition throw :: "error \<Rightarrow> 'a action" where
  "throw e c = (Inl e, c)"

definition bnd :: "'a action \<Rightarrow> ('a \<Rightarrow> 'b action) \<Rightarrow> 'b action" where
  "bnd m f c = (case m c of (Inl e, c') \<Rightarrow> (Inl e, c') | (Inr a, c') \<Rightarrow> f a c')"

subsection \<open>The handler of src/test.js\<close>

record response =
  data :: "row list"
  inserted :: nat
  updated :: nat
  deleted :: nat

text \<open>
  \<^verbatim>\<open>defaultOrderDetails\<close>; \<open>today\<close> stands for
  \<^verbatim>\<open>new Date().toISOString().split('T')[0]\<close>.
\<close>

definition defaultOrderDetails :: "jsval \<Rightarrow> (string \<times> jsval) list" where
  "defaultOrderDetails today =
     [(''voucher_type'', JStr ''Sales Order''),
      (''order_date'', today),
      (''customer_code'', JStr []),
      (''customer_name'', JStr []),
      (''executive'', JStr []),
      (''role'', JStr []),
      (''status'', JStr ''pending''),
      (''total_quantity'', JNum 0),
      (''total_amount'', JNum 0),
      (''total_amount_without_tax'', JNum 0),
      (''total_sgst_amount'', JNum 0),
      (''total_cgst_amount'', JNum 0),
      (''total_igst_amount'', JNum 0),
      (''remarks'', JStr [])]"

definition commonFields :: "string list" where
  "commonFields =
     [''voucher_type'', ''order_date'', ''customer_code'', ''customer_name'',
      ''executive'', ''role'', ''status'', ''total_quantity'', ''total_amount'',
      ''total_amount_without_tax'', ''total_sgst_amount'', ''total_cgst_amount'',
      ''total_igst_amount'', ''remarks'']"

definition validItems :: "item list \<Rightarrow> item list" where
  "validItems allItems = filter (\<lambda>i. \<not> item_deleted i) allItems"

text \<open>\<^verbatim>\<open>validItems.find(item => item.id) || validItems[0]\<close>, under \<^verbatim>\<open>validItems.length > 0\<close>.\<close>

definition priorityItem :: "item list \<Rightarrow> item option" where
  "priorityItem vs =
     (case find has_id vs of
        Some p \<Rightarrow> Some p
      | None \<Rightarrow> (case vs of [] \<Rightarrow> None | v # _ \<Rightarrow> Some v))"

definition commonOrderDetails :: "jsval \<Rightarrow> item list \<Rightarrow> (string \<times> jsval) list" where
  "commonOrderDetails today allItems =
     (case priorityItem (validItems allItems) of
        None \<Rightarrow> defaultOrderDetails today
      | Some p \<Rightarrow>
          fold (\<lambda>field d. case item_prop p field of
                             None \<Rightarrow> d
                           | Some v \<Rightarrow> AList.update field v d)
               commonFields (defaultOrderDetails today))"

text \<open>\<^verbatim>\<open>commonOrderDetails.field\<close>; an undefined bind value is NULL.\<close>

definition detail :: "(string \<times> jsval) list \<Rightarrow> string \<Rightarrow> jsval" where
  "detail d f = (case map_of d f of None \<Rightarrow> JNull | Some v \<Rightarrow> v)"

definition allowedFields_test :: "string list" where
  "allowedFields_test =
     [''status'', ''disc_percentage'', ''disc_amount'', ''spl_disc_percentage'',
      ''spl_disc_amount'', ''net_rate'', ''gross_amount'', ''total_quantity'',
      ''total_amount'', ''total_amount_without_tax'', ''remarks'', ''quantity'',
      ''delivery_date'', ''delivery_mode'', ''transporter_name'',
      ''total_sgst_amount'', ''total_cgst_amount'', ''total_igst_amount'',
      ''sgst'', ''cgst'', ''igst'', ''gst'', ''hsn'', ''rate'', ''amount'', ''uom'',
      ''item_code'', ''item_name'', ''order_date'']"

definition filterFields :: "string list \<Rightarrow> (string \<times> jsval) list \<Rightarrow> (string \<times> jsval) list" where
  "filterFields allowed flds = filter (\<lambda>(k, v). k \<in> set allowed) flds"

text \<open>
  Deletions: the ids are verified against the order only when the order exists; the DELETE
  (with its RETURNING clause) is issued in both cases.
\<close>

definition verify_deletions :: "(nat \<Rightarrow> bool) \<Rightarrow> ustring \<Rightarrow> int list \<Rightarrow> unit action" where
  "verify_deletions F order_no deleteIds =
     bnd (execute F (SelectVerify deleteIds order_no)) (\<lambda>verifyResult.
       if length (res_ids verifyResult) \<noteq> length deleteIds
       then throw (CannotDelete (filter (\<lambda>i. i \<notin> set (res_ids verifyResult)) deleteIds) order_no)
       else ret ())"

definition handle_deletions :: "(nat \<Rightarrow> bool) \<Rightarrow> bool \<Rightarrow> ustring \<Rightarrow> item list \<Rightarrow> unit action" where
  "handle_deletions F orderExists order_no dels =
     (if dels = [] then ret ()
      else bnd (if orderExists then verify_deletions F order_no (map id_or_zero dels) else ret ())
             (\<lambda>_. bnd (execute F (DeleteReturning (map id_or_zero dels) order_no)) (\<lambda>_. ret ())))"

text \<open>One pass of the update loop.\<close>

definition check_item :: "(nat \<Rightarrow> bool) \<Rightarrow> ustring \<Rightarrow> int \<Rightarrow> unit action" where
  "check_item F order_no i =
     bnd (execute F (SelectItem i)) (\<lambda>itemCheck.
       case res_orders itemCheck of
         [] \<Rightarrow> throw (ItemNotExist i)
       | found # _ \<Rightarrow> if found \<noteq> order_no then throw (ItemWrongOrder i found order_no) else ret ())"

definition update_item :: "(nat \<Rightarrow> bool) \<Rightarrow> bool \<Rightarrow> ustring \<Rightarrow> item \<Rightarrow> unit action" where
  "update_item F orderExists order_no u =
     bnd (if orderExists then check_item F order_no (id_or_zero u) else ret ())
       (\<lambda>_. if filterFields allowedFields_test (item_fields u) = [] then ret ()
            else bnd (execute F (UpdateRow (filterFields allowedFields_test (item_fields u))
                                   (id_or_zero u) order_no))
                   (\<lambda>result. if res_affected result = 0
                              then throw (NoRecordFound (id_or_zero u) order_no)
                              else ret ()))"

fun handle_updates :: "(nat \<Rightarrow> bool) \<Rightarrow> bool \<Rightarrow> ustring \<Rightarrow> item list \<Rightarrow> unit action" where
  "handle_updates F orderExists order_no [] = ret ()"
| "handle_updates F orderExists order_no (u # us) =
     bnd (update_item F orderExists order_no u) (\<lambda>_. handle_updates F orderExists order_no us)"

text \<open>\<^verbatim>\<open>insertItem\<close> without its first column \<^verbatim>\<open>order_no\<close>, which \<open>InsertRow\<close> carries.\<close>

definition insertItem :: "(string \<times> jsval) list \<Rightarrow> item \<Rightarrow> (string \<times> jsval) list" where
  "insertItem cd newItem =
     [(''voucher_type'', detail cd ''voucher_type''),
      (''order_date'', detail cd ''order_date''),
      (''customer_code'', detail cd ''customer_code''),
      (''customer_name'', detail cd ''customer_name''),
      (''executive'', detail cd ''executive''),
      (''role'', detail cd ''role''),
      (''status'', detail cd ''status''),
      (''item_code'', js_or (item_prop newItem ''item_code'') (JStr [])),
      (''item_name'', js_or (item_prop newItem ''item_name'') (JStr [])),
      (''hsn'', js_or (item_prop newItem ''hsn'') (JStr [])),
      (''gst'', js_or (item_prop newItem ''gst'') (JNum 0)),
      (''sgst'', js_or (item_prop newItem ''sgst'') (JNum 0)),
      (''cgst'', js_or (item_prop newItem ''cgst'') (JNum 0)),
      (''igst'', js_or (item_prop newItem ''igst'') (JNum 0)),
      (''delivery_date'', js_or (item_prop newItem ''delivery_date'') JNull),
      (''delivery_mode'', js_or (item_prop newItem ''delivery_mode'') (JStr [])),
      (''quantity'', js_or (item_prop newItem ''quantity'') (JNum 0)),
      (''uom'', js_or (item_prop newItem ''uom'') (JStr [])),
      (''rate'', js_or (item_prop newItem ''rate'') (JNum 0)),
      (''amount'', js_or (item_prop newItem ''amount'') (JNum 0)),
      (''net_rate'', js_or (item_prop newItem ''net_rate'') (JNum 0)),
      (''gross_amount'', js_or (item_prop newItem ''gross_amount'') (JNum 0)),
      (''disc_percentage'', js_or (item_prop newItem ''disc_percentage'') (JNum 0)),
      (''disc_amount'', js_or (item_prop newItem ''disc_amount'') (JNum 0)),
      (''spl_disc_percentage'', js_or (item_prop newItem ''spl_disc_percentage'') (JNum 0)),
      (''spl_disc_amount'', js_or (item_prop newItem ''spl_disc_amount'') (JNum 0)),
      (''total_quantity'', detail cd ''total_quantity''),
      (''total_amount'', detail cd ''total_amount''),
      (''total_amount_without_tax'', detail cd ''total_amount_without_tax''),
      (''total_sgst_amount'', detail cd ''total_sgst_amount''),
      (''total_cgst_amount'', detail cd ''total_cgst_amount''),
      (''total_igst_amount'', detail cd ''total_igst_amount''),
      (''remarks'', detail cd ''remarks''),
      (''transporter_name'', js_or (item_prop newItem ''transporter_name'') (JStr []))]"

fun handle_insertions :: "(nat \<Rightarrow> bool) \<Rightarrow> ustring \<Rightarrow> (string \<times> jsval) list \<Rightarrow> item list \<Rightarrow> unit action" where
  "handle_insertions F order_no cd [] = ret ()"
| "handle_insertions F order_no cd (newItem # rest) =
     bnd (execute F (InsertRow order_no (insertItem cd newItem)))
       (\<lambda>_. handle_insertions F order_no cd rest)"

text \<open>\<^verbatim>\<open>updateCommonSql\<close> with \<^verbatim>\<open>commonValues\<close>: the fourteen SET columns in statement order.\<close>

definition commonValues :: "(string \<times> jsval) list \<Rightarrow> (string \<times> jsval) list" where
  "commonValues cd =
     [(''voucher_type'', detail cd ''voucher_type''),
      (''order_date'', detail cd ''order_date''),
      (''customer_code'', detail cd ''customer_code''),
      (''customer_name'', detail cd ''customer_name''),
      (''executive'', detail cd ''executive''),
      (''role'', detail cd ''role''),
      (''status'', detail cd ''status''),
      (''total_quantity'', detail cd ''total_quantity''),
      (''total_amount'', detail cd ''total_amount''),
      (''total_amount_without_tax'', detail cd ''total_amount_without_tax''),
      (''total_sgst_amount'', detail cd ''total_sgst_amount''),
      (''total_cgst_amount'', detail cd ''total_cgst_amount''),
      (''total_igst_amount'', detail cd ''total_igst_amount''),
      (''remarks'', detail cd ''remarks'')]"

definition update_common :: "(nat \<Rightarrow> bool) \<Rightarrow> bool \<Rightarrow> ustring \<Rightarrow> item list \<Rightarrow> (string \<times> jsval) list \<Rightarrow> unit action" where
  "update_common F orderExists order_no ins cd =
     (if orderExists \<or> ins \<noteq> []
      then bnd (execute F (UpdateCommon (commonValues cd) order_no)) (\<lambda>_. ret ())
      else ret ())"

text \<open>
  The statements of the \<^verbatim>\<open>try\<close> block up to, and without, \<^verbatim>\<open>connection.commit()\<close>:
  BEGIN, the existence lookup, deletions, updates, insertions, header propagation.
\<close>

definition mutations_test :: "(nat \<Rightarrow> bool) \<Rightarrow> jsval \<Rightarrow> ustring \<Rightarrow> item list \<Rightarrow> unit action" where
  "mutations_test F today order_no allItems =
     bnd (execute F Begin) (\<lambda>_.
     bnd (execute F (SelectCount order_no)) (\<lambda>orderCheck.
       if \<not> 0 < res_count orderCheck \<and> itemsToInsert allItems = []
       then throw (OrderMissingNoItems order_no)
       else
         bnd (handle_deletions F (0 < res_count orderCheck) order_no (itemsToDelete allItems)) (\<lambda>_.
         bnd (handle_updates F (0 < res_count orderCheck) order_no (itemsToUpdate allItems)) (\<lambda>_.
         bnd (handle_insertions F order_no (commonOrderDetails today allItems) (itemsToInsert allItems)) (\<lambda>_.
         update_common F (0 < res_count orderCheck) order_no (itemsToInsert allItems)
           (commonOrderDetails today allItems))))))"

definition transaction_test :: "(nat \<Rightarrow> bool) \<Rightarrow> jsval \<Rightarrow> ustring \<Rightarrow> item list \<Rightarrow> response action" where
  "transaction_test F today order_no allItems =
     bnd (mutations_test F today order_no allItems) (\<lambda>_.
     bnd (execute F Commit) (\<lambda>_.
     bnd (execute F (SelectAll order_no)) (\<lambda>finalResult.
       ret \<lparr>data = res_rows finalResult,
            inserted = length (itemsToInsert allItems),
            updated = length (itemsToUpdate allItems),
            deleted = length (itemsToDelete allItems)\<rparr>)))"

text \<open>
  The handler: the two 400 answers are given before a connection is taken; the
  \<^verbatim>\<open>catch\<close> block rolls back, the \<^verbatim>\<open>finally\<close> block closes.
\<close>

definition reconcile_test :: "(nat \<Rightarrow> bool) \<Rightarrow> jsval \<Rightarrow> conn \<Rightarrow> ustring \<Rightarrow> item list \<Rightarrow> (error + response) \<times> conn" where
  "reconcile_test F today c order_no body =
     (if blank order_no then (Inl OrderNumberRequired, c)
      else if sortItems body = [] then (Inl NoDataProvided, c)
      else (case transaction_test F today order_no (sortItems body) (getConnection c) of
              (Inl e, c') \<Rightarrow> (Inl e, close (rollback c'))
            | (Inr resp, c') \<Rightarrow> (Inr resp, close c')))"

subsection \<open>The handler of src/routes/orders.js\<close>

definition allowedFields_routes :: "string list" where
  "allowedFields_routes =
     [''status'', ''disc_percentage'', ''disc_amount'', ''spl_disc_percentage'',
      ''spl_disc_amount'', ''net_rate'', ''gross_amount'', ''quantity'', ''gst'', ''sgst'',
      ''cgst'', ''igst'', ''hsn'', ''rate'', ''amount'', ''uom'', ''item_code'', ''item_name'',
      ''delivery_date'', ''delivery_mode'', ''transporter_name'', ''total_quantity'',
      ''total_amount'', ''total_amount_without_tax'', ''total_sgst_amount'',
      ''total_cgst_amount'', ''total_igst_amount'', ''remarks'', ''order_date'']"

text \<open>
  \<^verbatim>\<open>toOracleDate\<close> comes from \<^verbatim>\<open>utils/helpers.js\<close>, which is not among the sources: it
  is a parameter \<open>tod\<close> (from a possibly undefined value to a bind value). \<open>now\<close> stands for
  \<^verbatim>\<open>new Date()\<close>.
\<close>

definition update_values :: "(jsval option \<Rightarrow> jsval) \<Rightarrow> (string \<times> jsval) list \<Rightarrow> (string \<times> jsval) list" where
  "update_values tod filtered =
     map (\<lambda>(k, v). (k, if k = ''order_date'' \<or> k = ''delivery_date'' then tod (Some v) else v)) filtered"

definition insertData :: "(jsval option \<Rightarrow> jsval) \<Rightarrow> jsval \<Rightarrow> item \<Rightarrow> (string \<times> jsval) list" where
  "insertData tod now item =
     [(''voucher_type'', js_or (item_prop item ''voucher_type'') (JStr ''Distributor Order-Web Based'')),
      (''order_date'', js_or (Some (tod (item_prop item ''order_date''))) now),
      (''customer_code'', js_or (item_prop item ''customer_code'') (JStr [])),
      (''customer_name'', js_or (item_prop item ''customer_name'') (JStr [])),
      (''executive'', js_or (item_prop item ''executive'') (JStr [])),
      (''role'', js_or (item_prop item ''role'') (JStr ''distributor'')),
      (''status'', js_or (item_prop item ''status'') (JStr ''pending'')),
      (''item_code'', js_or (item_prop item ''item_code'') (JStr [])),
      (''item_name'', js_or (item_prop item ''item_name'') (JStr [])),
      (''hsn'', js_or (item_prop item ''hsn'') (JStr [])),
      (''gst'', js_or (item_prop item ''gst'') (JNum 0)),
      (''sgst'', js_or (item_prop item ''sgst'') (JNum 0)),
      (''cgst'', js_or (item_prop item ''cgst'') (JNum 0)),
      (''igst'', js_or (item_prop item ''igst'') (JNum 0)),
      (''delivery_date'', tod (item_prop item ''delivery_date'')),
      (''delivery_mode'', js_or (item_prop item ''delivery_mode'') (JStr [])),
      (''transporter_name'', js_or (item_prop item ''transporter_name'') (JStr [])),
      (''quantity'', js_or (item_prop item ''quantity'') (JNum 0)),
      (''uom'', js_or (item_prop item ''uom'') (JStr [])),
      (''rate'', js_or (item_prop item ''rate'') (JNum 0)),
      (''amount'', js_or (item_prop item ''amount'') (JNum 0)),
      (''net_rate'', js_or (item_prop item ''net_rate'') (JNum 0)),
      (''gross_amount'', js_or (item_prop item ''gross_amount'') (JNum 0)),
      (''disc_percentage'', js_or (item_prop item ''disc_percentage'') (JNum 0)),
      (''disc_amount'', js_or (item_prop item ''disc_amount'') (JNum 0)),
      (''spl_disc_percentage'', js_or (item_prop item ''spl_disc_percentage'') (JNum 0)),
      (''spl_disc_amount'', js_or (item_prop item ''spl_disc_amount'') (JNum 0)),
      (''total_quantity'', js_or (item_prop item ''total_quantity'') (JNum 0)),
      (''total_amount'', js_or (item_prop item ''total_amount'') (JNum 0)),
      (''total_amount_without_tax'', js_or (item_prop item ''total_amount_without_tax'') (JNum 0)),
      (''total_sgst_amount'', js_or (item_prop item ''total_sgst_amount'') (JNum 0)),
      (''total_cgst_amount'', js_or (item_prop item ''total_cgst_amount'') (JNum 0)),
      (''total_igst_amount'', js_or (item_prop item ''total_igst_amount'') (JNum 0)),
      (''remarks'', js_or (item_prop item ''remarks'') (JStr []))]"

definition delete_operations :: "ustring \<Rightarrow> item list \<Rightarrow> stmt list" where
  "delete_operations order_no dels =
     (if dels = [] then [] else [DeleteRows (map id_or_zero dels) order_no])"

text \<open>The update loop: an item with no allowed field adds nothing (\<^verbatim>\<open>continue\<close>).\<close>

fun update_operations :: "(jsval option \<Rightarrow> jsval) \<Rightarrow> ustring \<Rightarrow> item list \<Rightarrow> stmt list" where
  "update_operations tod order_no [] = []"
| "update_operations tod order_no (r # rs) =
     (if filterFields allowedFields_routes (item_fields r) = [] then update_operations tod order_no rs
      else UpdateRow (update_values tod (filterFields allowedFields_routes (item_fields r)))
             (id_or_zero r) order_no
           # update_operations tod order_no rs)"

definition insert_operations :: "(jsval option \<Rightarrow> jsval) \<Rightarrow> jsval \<Rightarrow> ustring \<Rightarrow> item list \<Rightarrow> stmt list" where
  "insert_operations tod now order_no ins = map (\<lambda>i. InsertRow order_no (insertData tod now i)) ins"

definition operations :: "(jsval option \<Rightarrow> jsval) \<Rightarrow> jsval \<Rightarrow> ustring \<Rightarrow> item list \<Rightarrow> stmt list" where
  "operations tod now order_no allItems =
     delete_operations order_no (itemsToDelete allItems)
     @ update_operations tod order_no (itemsToUpdate allItems)
     @ insert_operations tod now order_no (itemsToInsert allItems)"

text \<open>\<^verbatim>\<open>OracleService.executeTransaction\<close> (src/unnamed/part_000).\<close>

fun run_operations :: "(nat \<Rightarrow> bool) \<Rightarrow> stmt list \<Rightarrow> sqlres list action" where
  "run_operations F [] = ret []"
| "run_operations F (op # ops) =
     bnd (execute F op) (\<lambda>r. bnd (run_operations F ops) (\<lambda>rs. ret (r # rs)))"

definition executeTransaction :: "(nat \<Rightarrow> bool) \<Rightarrow> stmt list \<Rightarrow> sqlres list action" where
  "executeTransaction F ops c =
     (case bnd (run_operations F ops) (\<lambda>results. bnd (execute F Commit) (\<lambda>_. ret results))
             (getConnection c) of
        (Inl e, c') \<Rightarrow> (Inl e, close (rollback c'))
      | (Inr results, c') \<Rightarrow> (Inr results, close c'))"

text \<open>\<^verbatim>\<open>OracleService.executeQuery\<close>: a connection of its own, closed afterwards.\<close>

definition executeQuery :: "(nat \<Rightarrow> bool) \<Rightarrow> stmt \<Rightarrow> sqlres action" where
  "executeQuery F s c = (case execute F s (getConnection c) of (r, c') \<Rightarrow> (r, close c'))"

definition reconcile_routes :: "(nat \<Rightarrow> bool) \<Rightarrow> (jsval option \<Rightarrow> jsval) \<Rightarrow> jsval \<Rightarrow> conn \<Rightarrow> ustring \<Rightarrow> item list \<Rightarrow> (error + response) \<times> conn" where
  "reconcile_routes F tod now c order_no body =
     (if blank order_no then (Inl OrderNumberRequired, c)
      else if sortItems body = [] then (Inl NoDataProvided, c)
      else bnd (executeTransaction F (operations tod now order_no (sortItems body))) (\<lambda>_.
           bnd (executeQuery F (SelectAll order_no)) (\<lambda>result.
             ret \<lparr>data = res_rows result,
                  inserted = length (itemsToInsert (sortItems body)),
                  updated = length (itemsToUpdate (sortItems body)),
                  deleted = length (itemsToDelete (sortItems body))\<rparr>)) c)"

section \<open>Notions used by the properties\<close>

text \<open>The rows of the table that belong to other orders than \<open>k\<close>, and those of \<open>k\<close>.\<close>

definition others :: "ustring \<Rightarrow> row list \<Rightarrow> row list" where
  "others k rs = filter (\<lambda>r. rorder r \<noteq> k) rs"

definition rows_of :: "ustring \<Rightarrow> row list \<Rightarrow> row list" where
  "rows_of k rs = filter (\<lambda>r. rorder r = k) rs"

text \<open>
  An action is local to order \<open>k\<close> when it commits nothing and leaves the rows of the other
  orders as they are in the working copy.
\<close>

definition local_to :: "ustring \<Rightarrow> 'a action \<Rightarrow> bool" where
  "local_to k m = (\<forall>c. committed (snd (m c)) = committed c
                      \<and> others k (working (snd (m c))) = others k (working c))"

text \<open>A statement that is not a commit and whose WHERE clause, if it writes, names order \<open>k\<close>.\<close>

fun scoped :: "ustring \<Rightarrow> stmt \<Rightarrow> bool" where
  "scoped k (DeleteRows ids k') = (k' = k)"
| "scoped k (DeleteReturning ids k') = (k' = k)"
| "scoped k (UpdateRow sets i k') = (k' = k)"
| "scoped k (InsertRow k' cols) = (k' = k)"
| "scoped k (UpdateCommon sets k') = (k' = k)"
| "scoped k Commit = False"
| "scoped k _ = True"

text \<open>The statements a call added to the log of the connection it was given.\<close>

definition new_statements :: "conn \<Rightarrow> conn \<Rightarrow> stmt list" where
  "new_statements c c' = drop (length (issued c)) (issued c')"

fun is_update :: "stmt \<Rightarrow> bool" where
  "is_update (UpdateRow sets i k) = True"
| "is_update _ = False"

fun is_insert :: "stmt \<Rightarrow> bool" where
  "is_insert (InsertRow k cols) = True"
| "is_insert _ = False"

fun is_lookup :: "stmt \<Rightarrow> bool" where
  "is_lookup (SelectVerify ids k) = True"
| "is_lookup (SelectItem i) = True"
| "is_lookup _ = False"

fun is_delete :: "stmt \<Rightarrow> bool" where
  "is_delete (DeleteRows ids k) = True"
| "is_delete (DeleteReturning ids k) = True"
| "is_delete _ = False"

text \<open>Every statement an action adds to the log satisfies \<open>S\<close>, whatever the outcome.\<close>

definition emits :: "(stmt \<Rightarrow> bool) \<Rightarrow> 'a action \<Rightarrow> bool" where
  "emits S m = (\<forall>c. \<exists>L. issued (snd (m c)) = issued c @ L \<and> list_all S L)"

text \<open>
  The UPDATE and INSERT statements of \<^verbatim>\<open>src/test.js\<close> for a list of items, in list order;
  an update item without any allowed field has no statement.
\<close>

definition update_statements :: "ustring \<Rightarrow> item list \<Rightarrow> stmt list" where
  "update_statements k us =
     map (\<lambda>u. UpdateRow (filterFields allowedFields_test (item_fields u)) (id_or_zero u) k)
       (filter (\<lambda>u. filterFields allowedFields_test (item_fields u) \<noteq> []) us)"

definition insert_statements :: "ustring \<Rightarrow> (string \<times> jsval) list \<Rightarrow> item list \<Rightarrow> stmt list" where
  "insert_statements k cd ns = map (\<lambda>n. InsertRow k (insertItem cd n)) ns"

text \<open>An action raises only errors that satisfy \<open>P\<close>.\<close>

definition raises :: "(error \<Rightarrow> bool) \<Rightarrow> 'a action \<Rightarrow> bool" where
  "raises P m = (\<forall>c e c'. m c = (Inl e, c') \<longrightarrow> P e)"

text \<open>The errors of the verification lookups of \<^verbatim>\<open>src/test.js\<close>.\<close>

fun is_lookup_error :: "error \<Rightarrow> bool" where
  "is_lookup_error (CannotDelete ids k) = True"
| "is_lookup_error (ItemNotExist i) = True"
| "is_lookup_error (ItemWrongOrder i found k) = True"
| "is_lookup_error _ = False"

text \<open>
  The order number the per-item lookup of \<^verbatim>\<open>src/test.js\<close> reads for an id
  (\<^verbatim>\<open>itemCheck.rows[0].ORDER_NO\<close>) is \<open>owner\<close>.
\<close>

definition owner_is :: "row list \<Rightarrow> int \<Rightarrow> ustring \<Rightarrow> bool" where
  "owner_is w i owner =
     (case map rorder (filter (\<lambda>r. rid r = i) w) of [] \<Rightarrow> False | found # _ \<Rightarrow> found = owner)"

text \<open>An action does not change that reading.\<close>

definition keeps_owner :: "int \<Rightarrow> ustring \<Rightarrow> 'a action \<Rightarrow> bool" where
  "keeps_owner i owner m = (\<forall>c. owner_is (working c) i owner \<longrightarrow> owner_is (working (snd (m c))) i owner)"

text \<open>The id and order number of every row, in table order.\<close>

definition keys :: "row list \<Rightarrow> (int \<times> ustring) list" where
  "keys w = map (\<lambda>r. (rid r, rorder r)) w"


text \<open>
  A persisted row submitted back as an item: its id, no deletion flag, and the columns
  \<open>cols\<close> with the values the row has.
\<close>

definition item_of_row :: "string list \<Rightarrow> row \<Rightarrow> item" where
  "item_of_row cols r =
     \<lparr>item_id = Some (rid r), item_deleted = False, item_fields = map (\<lambda>f. (f, rcols r f)) cols\<rparr>"

text \<open>
  \<^verbatim>\<open>toOracleDate\<close> gives back the stored value of the date columns that are submitted.
\<close>

definition dates_kept :: "(jsval option \<Rightarrow> jsval) \<Rightarrow> string list \<Rightarrow> row \<Rightarrow> bool" where
  "dates_kept tod cols r =
     list_all (\<lambda>f. if f \<in> set cols then tod (Some (rcols r f)) = rcols r f else True)
       [''order_date'', ''delivery_date'']"

subsection \<open>Concrete data for the examples\<close>

definition no_fault :: "nat \<Rightarrow> bool" where
  "no_fault n = False"

definition fault_at :: "nat \<Rightarrow> nat \<Rightarrow> bool" where
  "fault_at m n = (n = m)"

definition example_row :: "int \<Rightarrow> ustring \<Rightarrow> string \<Rightarrow> row" where
  "example_row i k name =
     \<lparr>rid = i, rorder = k, rcols = (\<lambda>_. JNull)(''customer_name'' := JStr name)\<rparr>"

text \<open>The order numbers A, B and C, and one that is a single no-break space (U+00A0).\<close>

definition order_A :: ustring where
  "order_A = [0x41]"

definition order_B :: ustring where
  "order_B = [0x42]"

definition order_C :: ustring where
  "order_C = [0x43]"

definition order_nbsp :: ustring where
  "order_nbsp = [0xA0]"

text \<open>Order A has the rows 1 and 2, order B the row 3; there is no order C.\<close>

definition example_rows :: "row list" where
  "example_rows =
     [example_row 1 order_A ''Acme'', example_row 2 order_A ''Acme'', example_row 3 order_B ''Bolt'']"

definition example_conn :: conn where
  "example_conn = \<lparr>committed = example_rows, working = example_rows, next_id = 4, issued = []\<rparr>"

definition update_of :: "int \<Rightarrow> (string \<times> jsval) list \<Rightarrow> item" where
  "update_of i fs = \<lparr>item_id = Some i, item_deleted = False, item_fields = fs\<rparr>"

definition delete_of :: "int \<Rightarrow> item" where
  "delete_of i = \<lparr>item_id = Some i, item_deleted = True, item_fields = []\<rparr>"

definition new_of :: "(string \<times> jsval) list \<Rightarrow> item" where
  "new_of fs = \<lparr>item_id = None, item_deleted = False, item_fields = fs\<rparr>"

definition flag_only :: item where
  "flag_only = \<lparr>item_id = None, item_deleted = True, item_fields = []\<rparr>"

definition tod_id :: "jsval option \<Rightarrow> jsval" where
  "tod_id v = (case v of None \<Rightarrow> JNull | Some x \<Rightarrow> x)"

definition a_day :: jsval where
  "a_day = JStr ''2026-01-01''"

definition header_cols :: "string list" where
  "header_cols = commonFields @ [''quantity'']"

section \<open>Basic facts\<close>

lemma bnd_ret [simp]: "bnd (ret a) f c = f a c"
  by (simp add: bnd_def ret_def)

lemma bnd_throw [simp]: "bnd (throw e) f c = (Inl e, c)"
  by (simp add: bnd_def throw_def)

lemma bnd_Inl: "m c = (Inl e, c') \<Longrightarrow> bnd m f c = (Inl e, c')"
  by (simp add: bnd_def)

lemma bnd_Inr: "m c = (Inr a, c') \<Longrightarrow> bnd m f c = f a c'"
  by (simp add: bnd_def)

lemma bnd_result:
  "bnd m f c = (r, c2) \<Longrightarrow>
     (\<exists>e. m c = (Inl e, c2) \<and> r = Inl e) \<or> (\<exists>a c1. m c = (Inr a, c1) \<and> f a c1 = (r, c2))"
  by (auto simp: bnd_def split: prod.splits sum.splits)

lemma committed_rollback [simp]: "committed (rollback c) = committed c"
  and working_rollback [simp]: "working (rollback c) = committed c"
  and issued_rollback [simp]: "issued (rollback c) = issued c"
  and committed_close [simp]: "committed (close c) = committed c"
  and working_close [simp]: "working (close c) = committed c"
  and issued_close [simp]: "issued (close c) = issued c"
  and committed_getConnection [simp]: "committed (getConnection c) = committed c"
  and working_getConnection [simp]: "working (getConnection c) = committed c"
  and issued_getConnection [simp]: "issued (getConnection c) = issued c"
  by (simp_all add: rollback_def close_def getConnection_def)

lemma sortItems_Nil [simp]: "sortItems body = [] \<longleftrightarrow> body = []"
  by (metis length_sort sortItems_def length_0_conv)

lemma rorder_set_cols [simp]: "rorder (set_cols sets r) = rorder r"
  by (simp add: set_cols_def)

lemma rid_set_cols [simp]: "rid (set_cols sets r) = rid r"
  by (simp add: set_cols_def)

subsection \<open>Statements scoped to an order leave the other orders alone\<close>

lemma local_ret [intro!, simp]: "local_to k (ret a)"
  by (simp add: local_to_def ret_def)

lemma local_throw [intro!, simp]: "local_to k (throw e)"
  by (simp add: local_to_def throw_def)

lemma local_bnd [intro!]: "local_to k m \<Longrightarrow> (\<And>a. local_to k (f a)) \<Longrightarrow> local_to k (bnd m f)"
  by (auto simp: local_to_def bnd_def split: prod.splits sum.splits) (metis snd_conv)+

lemma local_if [intro!]: "local_to k m \<Longrightarrow> local_to k n \<Longrightarrow> local_to k (if b then m else n)"
  by simp

lemma local_toD:
  "local_to k m \<Longrightarrow> m c = (r, c') \<Longrightarrow>
     committed c' = committed c \<and> others k (working c') = others k (working c)"
  by (auto simp: local_to_def dest!: spec [of _ c])

lemma others_map_scoped:
  "(\<And>r. rorder (g r) = rorder r) \<Longrightarrow> (\<And>r. rorder r \<noteq> k \<Longrightarrow> g r = r) \<Longrightarrow>
     others k (map g rs) = others k rs"
  by (induction rs) (auto simp: others_def)

lemma others_delete: "others k (filter (\<lambda>r. \<not> in_ids ids k r) rs) = others k rs"
  by (induction rs) (auto simp: others_def in_ids_def)

lemma run_stmt_local:
  assumes "scoped k s"
  shows "committed (snd (run_stmt s c)) = committed c
       \<and> others k (working (snd (run_stmt s c))) = others k (working c)"
proof (cases s)
  case (DeleteRows ids k')
  with assms show ?thesis by (simp add: others_delete)
next
  case (DeleteReturning ids k')
  with assms show ?thesis by (simp add: others_delete)
next
  case (UpdateRow sets i k')
  with assms show ?thesis by (simp add: others_map_scoped)
next
  case (UpdateCommon sets k')
  with assms show ?thesis by (simp add: others_map_scoped)
next
  case (InsertRow k' cols)
  with assms show ?thesis by (simp add: others_def)
next
  case Commit
  with assms show ?thesis by simp
qed simp_all

lemma local_execute [intro]:
  assumes "scoped k s"
  shows "local_to k (execute F s)"
proof -
  have "committed (snd (execute F s c)) = committed c
      \<and> others k (working (snd (execute F s c))) = others k (working c)" for c
    using run_stmt_local [OF assms, of "c\<lparr>issued := issued c @ [s]\<rparr>"]
    by (cases "run_stmt s (c\<lparr>issued := issued c @ [s]\<rparr>)") (simp add: execute_def Let_def)
  then show ?thesis by (simp add: local_to_def)
qed

lemma local_verify_deletions: "local_to k (verify_deletions F k ids)"
  unfolding verify_deletions_def by (intro local_bnd local_if local_execute) simp_all

lemma local_handle_deletions: "local_to k (handle_deletions F oe k dels)"
  unfolding handle_deletions_def
  by (intro local_bnd local_if local_execute local_verify_deletions) simp_all

lemma local_check_item: "local_to k (check_item F k i)"
  unfolding check_item_def
  by (intro local_bnd local_execute) (simp_all split: list.splits)

lemma local_update_item: "local_to k (update_item F oe k u)"
  unfolding update_item_def
  by (intro local_bnd local_if local_execute local_check_item) simp_all

lemma local_handle_updates: "local_to k (handle_updates F oe k us)"
  by (induction us) (auto intro: local_update_item)

lemma local_handle_insertions: "local_to k (handle_insertions F k cd ns)"
  by (induction ns) auto

lemma local_update_common: "local_to k (update_common F oe k ins cd)"
  unfolding update_common_def by (intro local_bnd local_if local_execute) simp_all

lemma local_mutations_test: "local_to k (mutations_test F today k allItems)"
  unfolding mutations_test_def
  by (intro local_bnd local_if local_execute local_handle_deletions local_handle_updates
        local_handle_insertions local_update_common) simp_all

lemma local_run_operations: "\<forall>s\<in>set ops. scoped k s \<Longrightarrow> local_to k (run_operations F ops)"
  by (induction ops) auto

lemma scoped_update_operations: "\<forall>s\<in>set (update_operations tod k us). scoped k s"
  by (induction us) auto

lemma scoped_operations: "\<forall>s\<in>set (operations tod now k allItems). scoped k s"
  using scoped_update_operations [of tod k]
  by (auto simp: operations_def delete_operations_def insert_operations_def)

lemma local_operations: "local_to k (run_operations F (operations tod now k allItems))"
  by (rule local_run_operations [OF scoped_operations])

subsection \<open>A failure before the commit\<close>

lemma failure_test:
  assumes "fst (mutations_test F today k (sortItems body) (getConnection c)) = Inl e"
    and "\<not> blank k" and "body \<noteq> []"
  shows "fst (reconcile_test F today c k body) = Inl e
       \<and> committed (snd (reconcile_test F today c k body)) = committed c
       \<and> working (snd (reconcile_test F today c k body)) = committed c"
proof -
  obtain c1 where m: "mutations_test F today k (sortItems body) (getConnection c) = (Inl e, c1)"
    using assms(1) by (cases "mutations_test F today k (sortItems body) (getConnection c)") simp
  have "committed c1 = committed c"
    using local_toD [OF local_mutations_test m] by simp
  moreover have "transaction_test F today k (sortItems body) (getConnection c) = (Inl e, c1)"
    unfolding transaction_test_def using m by (rule bnd_Inl)
  ultimately show ?thesis using assms(2,3) by (simp add: reconcile_test_def)
qed

lemma failure_routes:
  assumes "fst (run_operations F (operations tod now k (sortItems body)) (getConnection c)) = Inl e"
    and "\<not> blank k" and "body \<noteq> []"
  shows "fst (reconcile_routes F tod now c k body) = Inl e
       \<and> committed (snd (reconcile_routes F tod now c k body)) = committed c
       \<and> working (snd (reconcile_routes F tod now c k body)) = committed c"
proof -
  let ?ops = "operations tod now k (sortItems body)"
  obtain c1 where m: "run_operations F ?ops (getConnection c) = (Inl e, c1)"
    using assms(1) by (cases "run_operations F ?ops (getConnection c)") simp
  have "committed c1 = committed c"
    using local_toD [OF local_operations m] by simp
  moreover have "bnd (run_operations F ?ops) (\<lambda>results. bnd (execute F Commit) (\<lambda>_. ret results))
                   (getConnection c) = (Inl e, c1)"
    using m by (rule bnd_Inl)
  ultimately have "executeTransaction F ?ops c = (Inl e, close (rollback c1))"
    and "committed (close (rollback c1)) = committed c"
    by (simp_all add: executeTransaction_def)
  then show ?thesis using assms(2,3) by (simp add: reconcile_routes_def bnd_Inl)
qed

subsection \<open>The partition of the sorted items\<close>

lemma key_without_id: "\<not> has_id i \<Longrightarrow> id_or_zero i = 0"
  by (simp add: has_id_def id_or_zero_def split: option.splits)

lemma itemsToUpdate_sortItems: "itemsToUpdate (sortItems body) = sort_key id_or_zero (itemsToUpdate body)"
  by (simp add: itemsToUpdate_def sortItems_def filter_sort)

lemma itemsToDelete_sortItems: "itemsToDelete (sortItems body) = sort_key id_or_zero (itemsToDelete body)"
  by (simp add: itemsToDelete_def sortItems_def filter_sort)

lemma itemsToInsert_sortItems: "itemsToInsert (sortItems body) = itemsToInsert body"
proof -
  have "itemsToInsert (sortItems body)
        = filter (\<lambda>i. \<not> has_id i \<and> \<not> item_deleted i) (filter (\<lambda>i. id_or_zero i = 0) (sort_key id_or_zero body))"
    by (auto simp: itemsToInsert_def sortItems_def key_without_id intro: filter_cong)
  also have "\<dots> = filter (\<lambda>i. \<not> has_id i \<and> \<not> item_deleted i) (filter (\<lambda>i. id_or_zero i = 0) body)"
    by (simp only: sort_key_stable)
  also have "\<dots> = itemsToInsert body"
    by (auto simp: itemsToInsert_def key_without_id intro: filter_cong)
  finally show ?thesis .
qed

lemma validItems_sortItems: "validItems (sortItems body) = sort_key id_or_zero (validItems body)"
  by (simp add: validItems_def sortItems_def filter_sort)

lemma transaction_test_cong:
  assumes "itemsToInsert a = itemsToInsert b" and "itemsToUpdate a = itemsToUpdate b"
    and "itemsToDelete a = itemsToDelete b" and "validItems a = validItems b"
  shows "transaction_test F today k a = transaction_test F today k b"
  unfolding transaction_test_def mutations_test_def commonOrderDetails_def assms by (rule refl)

lemma operations_cong:
  assumes "itemsToInsert a = itemsToInsert b" and "itemsToUpdate a = itemsToUpdate b"
    and "itemsToDelete a = itemsToDelete b"
  shows "operations tod now k a = operations tod now k b"
  unfolding operations_def assms by (rule refl)

lemma dropped_partitions:
  assumes "item_deleted x" and "\<not> has_id x"
  shows "itemsToInsert (sortItems (xs @ x # ys)) = itemsToInsert (sortItems (xs @ ys))"
    and "itemsToUpdate (sortItems (xs @ x # ys)) = itemsToUpdate (sortItems (xs @ ys))"
    and "itemsToDelete (sortItems (xs @ x # ys)) = itemsToDelete (sortItems (xs @ ys))"
    and "validItems (sortItems (xs @ x # ys)) = validItems (sortItems (xs @ ys))"
  unfolding itemsToInsert_sortItems itemsToUpdate_sortItems itemsToDelete_sortItems
    validItems_sortItems
  using assms
  by (simp_all add: itemsToInsert_def itemsToUpdate_def itemsToDelete_def validItems_def)

subsection \<open>The statements a call issues\<close>

lemma bnd_success:
  "bnd m f c = (Inr b, c2) \<Longrightarrow> \<exists>a c1. m c = (Inr a, c1) \<and> f a c1 = (Inr b, c2)"
  by (auto simp: bnd_def split: prod.splits sum.splits)

lemma emits_ret [intro!, simp]: "emits S (ret a)"
  by (simp add: emits_def ret_def)

lemma emits_throw [intro!, simp]: "emits S (throw e)"
  by (simp add: emits_def throw_def)

lemma emitsD: "emits S m \<Longrightarrow> m c = (r, c') \<Longrightarrow> \<exists>L. issued c' = issued c @ L \<and> list_all S L"
  by (auto simp: emits_def dest!: spec [of _ c])

lemma emits_bnd [intro!]:
  assumes "emits S m" and "\<And>a. emits S (f a)"
  shows "emits S (bnd m f)"
proof -
  have "\<exists>L. issued (snd (bnd m f c)) = issued c @ L \<and> list_all S L" for c
  proof (cases "m c")
    case (Pair r c1)
    from emitsD [OF assms(1) Pair] obtain L1 where 1: "issued c1 = issued c @ L1" "list_all S L1"
      by blast
    show ?thesis
    proof (cases r)
      case (Inl e)
      with Pair 1 show ?thesis by (auto simp: bnd_def)
    next
      case (Inr a)
      obtain r2 c2 where 2: "f a c1 = (r2, c2)" by (cases "f a c1")
      from emitsD [OF assms(2) 2] obtain L2 where "issued c2 = issued c1 @ L2" "list_all S L2"
        by blast
      with 1 2 Pair Inr show ?thesis by (auto simp: bnd_def)
    qed
  qed
  then show ?thesis by (simp add: emits_def)
qed

lemma emits_if [intro!]: "emits S m \<Longrightarrow> emits S n \<Longrightarrow> emits S (if b then m else n)"
  by simp

lemma issued_run_stmt [simp]: "issued (snd (run_stmt s c)) = issued c"
  by (cases s) simp_all

lemma issued_execute: "issued (snd (execute F s c)) = issued c @ [s]"
  using issued_run_stmt [of s "c\<lparr>issued := issued c @ [s]\<rparr>"]
  by (cases "run_stmt s (c\<lparr>issued := issued c @ [s]\<rparr>)") (simp add: execute_def Let_def)

lemma emits_execute [intro]: "S s \<Longrightarrow> emits S (execute F s)"
  by (simp add: emits_def issued_execute)

lemma emits_mono: "emits S m \<Longrightarrow> (\<And>s. S s \<Longrightarrow> T s) \<Longrightarrow> emits T m"
  by (auto simp: emits_def list_all_iff) (metis)

lemma emits_handle_deletions:
  "emits (\<lambda>s. \<not> is_update s \<and> \<not> is_insert s) (handle_deletions F oe k dels)"
  unfolding handle_deletions_def verify_deletions_def
  by (intro emits_bnd emits_if emits_execute emits_ret emits_throw) simp_all

lemma emits_update_common:
  "emits (\<lambda>s. \<not> is_update s \<and> \<not> is_insert s) (update_common F oe k ins cd)"
  unfolding update_common_def
  by (intro emits_bnd emits_if emits_execute emits_ret emits_throw) simp_all

lemma execute_issued: "execute F s c = (r, c') \<Longrightarrow> issued c' = issued c @ [s]"
  using issued_execute [of F s c] by simp

lemma log_update_item:
  assumes "update_item F oe k u c = (Inr a, c')"
  shows "\<exists>L. issued c' = issued c @ L \<and> filter is_update L = update_statements k [u]
            \<and> filter is_insert L = []"
proof -
  from bnd_success [OF assms [unfolded update_item_def]]
  obtain b c1 where 1: "(if oe then check_item F k (id_or_zero u) else ret ()) c = (Inr b, c1)"
    and 2: "(if filterFields allowedFields_test (item_fields u) = [] then ret ()
            else bnd (execute F (UpdateRow (filterFields allowedFields_test (item_fields u)) (id_or_zero u) k))
                   (\<lambda>result. if res_affected result = 0 then throw (NoRecordFound (id_or_zero u) k) else ret ())) c1
            = (Inr a, c')"
    by auto
  have "emits (\<lambda>s. \<not> is_update s \<and> \<not> is_insert s) (if oe then check_item F k (id_or_zero u) else ret ())"
    unfolding check_item_def
    by (intro emits_bnd emits_if emits_execute emits_ret) (simp_all split: list.splits)
  from emitsD [OF this 1] obtain L1 where L1: "issued c1 = issued c @ L1"
    "list_all (\<lambda>s. \<not> is_update s \<and> \<not> is_insert s) L1" by blast
  then have f1: "filter is_update L1 = []" "filter is_insert L1 = []"
    by (auto simp: list_all_iff filter_empty_conv)
  show ?thesis
  proof (cases "filterFields allowedFields_test (item_fields u) = []")
    case True
    with 2 have "c' = c1" by (simp add: ret_def)
    with L1 f1 True show ?thesis by (simp add: update_statements_def)
  next
    case False
    with 2 have "bnd (execute F (UpdateRow (filterFields allowedFields_test (item_fields u)) (id_or_zero u) k))
                   (\<lambda>result. if res_affected result = 0 then throw (NoRecordFound (id_or_zero u) k) else ret ()) c1
            = (Inr a, c')" by simp
    from bnd_success [OF this]
    obtain r c2 where 3: "execute F (UpdateRow (filterFields allowedFields_test (item_fields u)) (id_or_zero u) k) c1 = (Inr r, c2)"
      and 4: "(if res_affected r = 0 then throw (NoRecordFound (id_or_zero u) k) else ret ()) c2 = (Inr a, c')"
      by auto
    from 4 have "c' = c2" by (auto simp: ret_def throw_def split: if_splits)
    with execute_issued [OF 3] L1 f1 False show ?thesis by (simp add: update_statements_def)
  qed
qed

lemma log_handle_updates:
  "handle_updates F oe k us c = (Inr a, c') \<Longrightarrow>
     \<exists>L. issued c' = issued c @ L \<and> filter is_update L = update_statements k us
        \<and> filter is_insert L = []"
proof (induction us arbitrary: c)
  case Nil
  then show ?case by (simp add: ret_def update_statements_def)
next
  case (Cons u us)
  from bnd_success [OF Cons.prems [unfolded handle_updates.simps]]
  obtain b c1 where 1: "update_item F oe k u c = (Inr b, c1)"
    and 2: "handle_updates F oe k us c1 = (Inr a, c')" by auto
  from log_update_item [OF 1] obtain L1 where L1: "issued c1 = issued c @ L1"
    "filter is_update L1 = update_statements k [u]" "filter is_insert L1 = []" by blast
  from Cons.IH [OF 2] obtain L2 where L2: "issued c' = issued c1 @ L2"
    "filter is_update L2 = update_statements k us" "filter is_insert L2 = []" by blast
  have "update_statements k (u # us) = update_statements k [u] @ update_statements k us"
    by (simp add: update_statements_def)
  with L1 L2 show ?case by simp
qed

lemma log_handle_insertions:
  "handle_insertions F k cd ns c = (Inr a, c') \<Longrightarrow> issued c' = issued c @ insert_statements k cd ns"
proof (induction ns arbitrary: c)
  case Nil
  then show ?case by (simp add: ret_def insert_statements_def)
next
  case (Cons n ns)
  from bnd_success [OF Cons.prems [unfolded handle_insertions.simps]]
  obtain b c1 where 1: "execute F (InsertRow k (insertItem cd n)) c = (Inr b, c1)"
    and 2: "handle_insertions F k cd ns c1 = (Inr a, c')" by auto
  from Cons.IH [OF 2] execute_issued [OF 1] show ?case
    by (simp add: insert_statements_def)
qed


lemma log_run_operations:
  "run_operations F ops c = (Inr rs, c') \<Longrightarrow> issued c' = issued c @ ops"
proof (induction ops arbitrary: c rs)
  case Nil
  then show ?case by (simp add: ret_def)
next
  case (Cons op ops)
  from bnd_success [OF Cons.prems [unfolded run_operations.simps]]
  obtain r c1 where 1: "execute F op c = (Inr r, c1)"
    and 2: "bnd (run_operations F ops) (\<lambda>rs. ret (r # rs)) c1 = (Inr rs, c')" by auto
  from bnd_success [OF 2] obtain rs' c2 where 3: "run_operations F ops c1 = (Inr rs', c2)"
    and 4: "ret (r # rs') c2 = (Inr rs, c')" by auto
  from 4 have "c2 = c'" by (simp add: ret_def)
  with 3 have "run_operations F ops c1 = (Inr rs', c')" by simp
  from Cons.IH [OF this] execute_issued [OF 1] show ?case by simp
qed

lemma log_mutations_test:
  assumes "mutations_test F today k a c = (Inr x, c')"
  shows "\<exists>L. issued c' = issued c @ L
            \<and> filter is_update L = update_statements k (itemsToUpdate a)
            \<and> filter is_insert L = insert_statements k (commonOrderDetails today a) (itemsToInsert a)"
proof -
  from bnd_success [OF assms [unfolded mutations_test_def]]
  obtain r0 c0 where 0: "execute F Begin c = (Inr r0, c0)"
    and m1: "bnd (execute F (SelectCount k)) (\<lambda>orderCheck.
       if \<not> 0 < res_count orderCheck \<and> itemsToInsert a = []
       then throw (OrderMissingNoItems k)
       else
         bnd (handle_deletions F (0 < res_count orderCheck) k (itemsToDelete a)) (\<lambda>_.
         bnd (handle_updates F (0 < res_count orderCheck) k (itemsToUpdate a)) (\<lambda>_.
         bnd (handle_insertions F k (commonOrderDetails today a) (itemsToInsert a)) (\<lambda>_.
         update_common F (0 < res_count orderCheck) k (itemsToInsert a)
           (commonOrderDetails today a))))) c0 = (Inr x, c')"
    by auto
  from bnd_success [OF m1] obtain r1 c1 where 1: "execute F (SelectCount k) c0 = (Inr r1, c1)"
    and m2: "(if \<not> 0 < res_count r1 \<and> itemsToInsert a = []
       then throw (OrderMissingNoItems k)
       else
         bnd (handle_deletions F (0 < res_count r1) k (itemsToDelete a)) (\<lambda>_.
         bnd (handle_updates F (0 < res_count r1) k (itemsToUpdate a)) (\<lambda>_.
         bnd (handle_insertions F k (commonOrderDetails today a) (itemsToInsert a)) (\<lambda>_.
         update_common F (0 < res_count r1) k (itemsToInsert a)
           (commonOrderDetails today a))))) c1 = (Inr x, c')"
    by auto
  from m2 have m3: "bnd (handle_deletions F (0 < res_count r1) k (itemsToDelete a)) (\<lambda>_.
         bnd (handle_updates F (0 < res_count r1) k (itemsToUpdate a)) (\<lambda>_.
         bnd (handle_insertions F k (commonOrderDetails today a) (itemsToInsert a)) (\<lambda>_.
         update_common F (0 < res_count r1) k (itemsToInsert a)
           (commonOrderDetails today a)))) c1 = (Inr x, c')"
    by (auto simp: throw_def split: if_splits)
  from bnd_success [OF m3] obtain r2 c2
    where 2: "handle_deletions F (0 < res_count r1) k (itemsToDelete a) c1 = (Inr r2, c2)"
      and m4: "bnd (handle_updates F (0 < res_count r1) k (itemsToUpdate a)) (\<lambda>_.
         bnd (handle_insertions F k (commonOrderDetails today a) (itemsToInsert a)) (\<lambda>_.
         update_common F (0 < res_count r1) k (itemsToInsert a)
           (commonOrderDetails today a))) c2 = (Inr x, c')"
    by auto
  from bnd_success [OF m4] obtain r3 c3
    where 3: "handle_updates F (0 < res_count r1) k (itemsToUpdate a) c2 = (Inr r3, c3)"
      and m5: "bnd (handle_insertions F k (commonOrderDetails today a) (itemsToInsert a)) (\<lambda>_.
         update_common F (0 < res_count r1) k (itemsToInsert a)
           (commonOrderDetails today a)) c3 = (Inr x, c')"
    by auto
  from bnd_success [OF m5] obtain r4 c4
    where 4: "handle_insertions F k (commonOrderDetails today a) (itemsToInsert a) c3 = (Inr r4, c4)"
      and 5: "update_common F (0 < res_count r1) k (itemsToInsert a) (commonOrderDetails today a) c4
              = (Inr x, c')"
    by auto
  note i0 = execute_issued [OF 0] and i1 = execute_issued [OF 1]
  from emitsD [OF emits_handle_deletions 2] obtain L2 where L2: "issued c2 = issued c1 @ L2"
    "list_all (\<lambda>s. \<not> is_update s \<and> \<not> is_insert s) L2" by blast
  from log_handle_updates [OF 3] obtain L3 where L3: "issued c3 = issued c2 @ L3"
    "filter is_update L3 = update_statements k (itemsToUpdate a)" "filter is_insert L3 = []" by blast
  note L4 = log_handle_insertions [OF 4]
  from emitsD [OF emits_update_common 5] obtain L5 where L5: "issued c' = issued c4 @ L5"
    "list_all (\<lambda>s. \<not> is_update s \<and> \<not> is_insert s) L5" by blast
  have f2: "filter is_update L2 = []" "filter is_insert L2 = []"
    and f5: "filter is_update L5 = []" "filter is_insert L5 = []"
    using L2(2) L5(2) by (auto simp: list_all_iff filter_empty_conv)
  have f4: "filter is_update (insert_statements k cd ns) = []"
    "filter is_insert (insert_statements k cd ns) = insert_statements k cd ns" for cd ns
    by (induction ns) (simp_all add: insert_statements_def)
  have "issued c' = issued c @ ([Begin, SelectCount k] @ L2 @ L3
          @ insert_statements k (commonOrderDetails today a) (itemsToInsert a) @ L5)"
    using i0 i1 L2(1) L3(1) L4 L5(1) by simp
  moreover have "filter is_update ([Begin, SelectCount k] @ L2 @ L3
          @ insert_statements k (commonOrderDetails today a) (itemsToInsert a) @ L5)
        = update_statements k (itemsToUpdate a)"
    using f2 L3 f4 f5 by simp
  moreover have "filter is_insert ([Begin, SelectCount k] @ L2 @ L3
          @ insert_statements k (commonOrderDetails today a) (itemsToInsert a) @ L5)
        = insert_statements k (commonOrderDetails today a) (itemsToInsert a)"
    using f2 L3 f4 f5 by simp
  ultimately show ?thesis by blast
qed

lemma reconcile_test_success:
  assumes "reconcile_test F today c k body = (Inr resp, c')"
  shows "\<exists>c1 c2 r2 c3 r3. \<not> blank k \<and> body \<noteq> []
          \<and> mutations_test F today k (sortItems body) (getConnection c) = (Inr (), c1)
          \<and> execute F Commit c1 = (Inr r2, c2)
          \<and> execute F (SelectAll k) c2 = (Inr r3, c3)
          \<and> resp = \<lparr>data = res_rows r3,
                    inserted = length (itemsToInsert (sortItems body)),
                    updated = length (itemsToUpdate (sortItems body)),
                    deleted = length (itemsToDelete (sortItems body))\<rparr>
          \<and> c' = close c3"
proof -
  from assms have nb: "\<not> blank k" and ne: "body \<noteq> []"
    by (auto simp: reconcile_test_def split: if_splits)
  from assms nb ne obtain c3 where t: "transaction_test F today k (sortItems body) (getConnection c) = (Inr resp, c3)"
    and c': "c' = close c3"
    by (auto simp: reconcile_test_def split: prod.splits sum.splits)
  from bnd_success [OF t [unfolded transaction_test_def]]
  obtain u c1 where 1: "mutations_test F today k (sortItems body) (getConnection c) = (Inr u, c1)"
    and t2: "bnd (execute F Commit) (\<lambda>_.
     bnd (execute F (SelectAll k)) (\<lambda>finalResult.
       ret \<lparr>data = res_rows finalResult,
            inserted = length (itemsToInsert (sortItems body)),
            updated = length (itemsToUpdate (sortItems body)),
            deleted = length (itemsToDelete (sortItems body))\<rparr>)) c1 = (Inr resp, c3)"
    by auto
  from bnd_success [OF t2] obtain r2 c2 where 2: "execute F Commit c1 = (Inr r2, c2)"
    and t3: "bnd (execute F (SelectAll k)) (\<lambda>finalResult.
       ret \<lparr>data = res_rows finalResult,
            inserted = length (itemsToInsert (sortItems body)),
            updated = length (itemsToUpdate (sortItems body)),
            deleted = length (itemsToDelete (sortItems body))\<rparr>) c2 = (Inr resp, c3)"
    by auto
  from bnd_success [OF t3] obtain r3 c3' where 3: "execute F (SelectAll k) c2 = (Inr r3, c3')"
    and 4: "ret \<lparr>data = res_rows r3,
            inserted = length (itemsToInsert (sortItems body)),
            updated = length (itemsToUpdate (sortItems body)),
            deleted = length (itemsToDelete (sortItems body))\<rparr> c3' = (Inr resp, c3)"
    by auto
  from 4 have "c3' = c3" and "resp = \<lparr>data = res_rows r3,
            inserted = length (itemsToInsert (sortItems body)),
            updated = length (itemsToUpdate (sortItems body)),
            deleted = length (itemsToDelete (sortItems body))\<rparr>"
    by (simp_all add: ret_def)
  with nb ne 1 2 3 c' show ?thesis by auto
qed

subsection \<open>Errors, success and the rows of other orders\<close>

lemma raises_ret [intro!, simp]: "raises P (ret a)"
  by (simp add: raises_def ret_def)

lemma raises_throw [intro]: "P e \<Longrightarrow> raises P (throw e)"
  by (simp add: raises_def throw_def)

lemma raises_bnd [intro!]: "raises P m \<Longrightarrow> (\<And>a. raises P (f a)) \<Longrightarrow> raises P (bnd m f)"
  unfolding raises_def by (metis bnd_result sum.inject(1))

lemma raises_if [intro!]: "raises P m \<Longrightarrow> raises P n \<Longrightarrow> raises P (if b then m else n)"
  by simp

lemma raises_execute [intro]: "(\<And>n. P (StorageError n)) \<Longrightarrow> raises P (execute F s)"
  by (auto simp: raises_def execute_def Let_def split: if_splits prod.splits)

lemma raisesD: "raises P m \<Longrightarrow> m c = (Inl e, c') \<Longrightarrow> P e"
  by (auto simp: raises_def)

text \<open>The existence lookup on an order without rows.\<close>

lemma mutations_test_absent:
  assumes "rows_of k (working c) = []"
  shows "mutations_test F today k a c =
     bnd (execute F Begin) (\<lambda>_.
     bnd (execute F (SelectCount k)) (\<lambda>_.
       if itemsToInsert a = []
       then throw (OrderMissingNoItems k)
       else
         bnd (handle_deletions F False k (itemsToDelete a)) (\<lambda>_.
         bnd (handle_updates F False k (itemsToUpdate a)) (\<lambda>_.
         bnd (handle_insertions F k (commonOrderDetails today a) (itemsToInsert a)) (\<lambda>_.
         update_common F False k (itemsToInsert a) (commonOrderDetails today a)))))) c"
  using assms
  by (simp add: mutations_test_def execute_def bnd_def Let_def rows_of_def)

lemma mutations_test_present:
  assumes "rows_of k (working c) \<noteq> []"
  shows "mutations_test F today k a c =
     bnd (execute F Begin) (\<lambda>_.
     bnd (execute F (SelectCount k)) (\<lambda>_.
         bnd (handle_deletions F True k (itemsToDelete a)) (\<lambda>_.
         bnd (handle_updates F True k (itemsToUpdate a)) (\<lambda>_.
         bnd (handle_insertions F k (commonOrderDetails today a) (itemsToInsert a)) (\<lambda>_.
         update_common F True k (itemsToInsert a) (commonOrderDetails today a)))))) c"
  using assms
  by (simp add: mutations_test_def execute_def bnd_def Let_def rows_of_def)

lemma handle_deletions_absent:
  "handle_deletions F False k dels =
     (if dels = [] then ret ()
      else bnd (execute F (DeleteReturning (map id_or_zero dels) k)) (\<lambda>_. ret ()))"
  by (rule ext) (simp add: handle_deletions_def)

lemma emits_handle_updates_absent: "emits (\<lambda>s. \<not> is_lookup s) (handle_updates F False k us)"
  by (induction us) (auto simp: update_item_def intro!: emits_execute)

lemma emits_handle_insertions: "emits (\<lambda>s. \<not> is_lookup s) (handle_insertions F k cd ns)"
  by (induction ns) (auto intro!: emits_execute)

lemma raises_handle_updates_absent:
  "raises (\<lambda>e. \<not> is_lookup_error e) (handle_updates F False k us)"
  by (induction us) (auto simp: update_item_def intro!: raises_execute raises_throw)

lemma raises_handle_insertions: "raises (\<lambda>e. \<not> is_lookup_error e) (handle_insertions F k cd ns)"
  by (induction ns) (auto intro!: raises_execute)

lemma execute_Commit_cases:
  "execute F Commit c = (r, c') \<Longrightarrow>
     (isl r \<and> committed c' = committed c \<and> working c' = working c)
     \<or> (\<not> isl r \<and> committed c' = working c \<and> working c' = working c)"
  by (auto simp: execute_def Let_def split: if_splits)

lemma execute_SelectAll:
  "execute F (SelectAll k) c = (r, c') \<Longrightarrow> committed c' = committed c \<and> working c' = working c"
  by (auto simp: execute_def Let_def split: if_splits)


lemma transaction_test_others:
  assumes "transaction_test F today k a c = (r, c')" and "working c = committed c"
  shows "others k (committed c') = others k (committed c)"
proof -
  obtain r1 c1 where m: "mutations_test F today k a c = (r1, c1)"
    by (cases "mutations_test F today k a c")
  from local_toD [OF local_mutations_test m] assms(2)
  have 1: "committed c1 = committed c" "others k (working c1) = others k (committed c)"
    by simp_all
  show ?thesis
  proof (cases r1)
    case (Inl e)
    with m assms(1) have "c' = c1" by (simp add: transaction_test_def bnd_def)
    with 1 show ?thesis by simp
  next
    case (Inr u)
    obtain r2 c2 where cm: "execute F Commit c1 = (r2, c2)"
      by (cases "execute F Commit c1")
    from execute_Commit_cases [OF cm] 1
    have 2: "others k (committed c2) = others k (committed c)" by auto
    show ?thesis
    proof (cases r2)
      case (Inl e)
      with m Inr cm assms(1) have "c' = c2" by (simp add: transaction_test_def bnd_def)
      with 2 show ?thesis by simp
    next
      case r2: (Inr x)
      obtain r3 c3 where s: "execute F (SelectAll k) c2 = (r3, c3)"
        by (cases "execute F (SelectAll k) c2")
      with m Inr cm r2 assms(1) have "c' = c3"
        by (cases r3) (simp_all add: transaction_test_def bnd_def ret_def)
      with execute_SelectAll [OF s] 2 show ?thesis by simp
    qed
  qed
qed

lemma reconcile_test_others:
  "others k (committed (snd (reconcile_test F today c k body))) = others k (committed c)"
proof (cases "blank k \<or> body = []")
  case True
  then show ?thesis by (auto simp: reconcile_test_def)
next
  case False
  obtain r c1 where t: "transaction_test F today k (sortItems body) (getConnection c) = (r, c1)"
    by (cases "transaction_test F today k (sortItems body) (getConnection c)")
  from transaction_test_others [OF t] have "others k (committed c1) = others k (committed c)"
    by simp
  with False t show ?thesis by (cases r) (simp_all add: reconcile_test_def)
qed

lemma executeTransaction_others:
  assumes "\<forall>s\<in>set ops. scoped k s"
  shows "others k (committed (snd (executeTransaction F ops c))) = others k (committed c)"
    and "working (snd (executeTransaction F ops c)) = committed (snd (executeTransaction F ops c))"
proof -
  obtain r1 c1 where m: "run_operations F ops (getConnection c) = (r1, c1)"
    by (cases "run_operations F ops (getConnection c)")
  from local_toD [OF local_run_operations [OF assms] m]
  have 1: "committed c1 = committed c" "others k (working c1) = others k (committed c)"
    by simp_all
  have "others k (committed (snd (executeTransaction F ops c))) = others k (committed c)
      \<and> working (snd (executeTransaction F ops c)) = committed (snd (executeTransaction F ops c))"
  proof (cases r1)
    case (Inl e)
    with m 1 show ?thesis by (simp add: executeTransaction_def bnd_def)
  next
    case (Inr rs)
    obtain r2 c2 where cm: "execute F Commit c1 = (r2, c2)"
      by (cases "execute F Commit c1")
    from execute_Commit_cases [OF cm] 1
    have "others k (committed c2) = others k (committed c)" by auto
    with m Inr cm show ?thesis
      by (cases r2) (simp_all add: executeTransaction_def bnd_def ret_def)
  qed
  then show "others k (committed (snd (executeTransaction F ops c))) = others k (committed c)"
    and "working (snd (executeTransaction F ops c)) = committed (snd (executeTransaction F ops c))"
    by simp_all
qed

lemma reconcile_routes_others:
  "others k (committed (snd (reconcile_routes F tod now c k body))) = others k (committed c)"
proof (cases "blank k \<or> body = []")
  case True
  then show ?thesis by (auto simp: reconcile_routes_def)
next
  case False
  let ?ops = "operations tod now k (sortItems body)"
  obtain r c1 where t: "executeTransaction F ?ops c = (r, c1)"
    by (cases "executeTransaction F ?ops c")
  have "others k (committed (snd (executeTransaction F ?ops c))) = others k (committed c)"
    by (rule executeTransaction_others(1) [OF scoped_operations])
  with t have 1: "others k (committed c1) = others k (committed c)" by simp
  show ?thesis
  proof (cases r)
    case (Inl e)
    with False t 1 show ?thesis by (simp add: reconcile_routes_def bnd_def)
  next
    case (Inr rs)
    obtain r3 c3 where s: "execute F (SelectAll k) (getConnection c1) = (r3, c3)"
      by (cases "execute F (SelectAll k) (getConnection c1)")
    from execute_SelectAll [OF s] have "committed c3 = committed c1" by simp
    with False t Inr s 1 show ?thesis
      by (cases r3) (simp_all add: reconcile_routes_def bnd_def executeQuery_def ret_def)
  qed
qed

subsection \<open>The first statements on an existing order\<close>






subsection \<open>The owner of an id through the statements of a call\<close>

lemma owner_is_keys: "keys w = keys w' \<Longrightarrow> owner_is w i owner = owner_is w' i owner"
proof -
  have "map rorder (filter (\<lambda>r. rid r = i) w) = map snd (filter (\<lambda>p. fst p = i) (keys w))" for w
    by (induction w) (simp_all add: keys_def)
  then show "keys w = keys w' \<Longrightarrow> owner_is w i owner = owner_is w' i owner"
    by (simp add: owner_is_def)
qed

lemma owner_is_Cons:
  "owner_is (r # w) i owner = (if rid r = i then rorder r = owner else owner_is w i owner)"
  by (simp add: owner_is_def)

lemma owner_is_Nil [simp]: "\<not> owner_is [] i owner"
  by (simp add: owner_is_def)

lemma owner_is_append: "owner_is w i owner \<Longrightarrow> owner_is (w @ w') i owner"
  by (induction w) (simp_all add: owner_is_Cons)

lemma owner_is_delete:
  "owner \<noteq> k \<Longrightarrow> owner_is w i owner \<Longrightarrow> owner_is (filter (\<lambda>r. \<not> in_ids ids k r) w) i owner"
  by (induction w) (auto simp: owner_is_Cons in_ids_def split: if_splits)

lemma owner_is_member: "owner_is w i owner \<Longrightarrow> filter (\<lambda>r. rid r = i \<and> rorder r = owner) w \<noteq> []"
  by (induction w) (auto simp: owner_is_Cons split: if_splits)

lemma keys_map_set_cols [simp]: "keys (map (\<lambda>r. if P r then set_cols sets r else r) w) = keys w"
  by (induction w) (simp_all add: keys_def)

lemma run_stmt_owner:
  assumes "scoped k s" and "owner \<noteq> k" and "owner_is (working c) i owner"
  shows "owner_is (working (snd (run_stmt s c))) i owner"
proof (cases s)
  case (DeleteRows ids k')
  with assms show ?thesis by (simp add: owner_is_delete)
next
  case (DeleteReturning ids k')
  with assms show ?thesis by (simp add: owner_is_delete)
next
  case (UpdateRow sets j k')
  with assms(3) owner_is_keys [OF keys_map_set_cols] show ?thesis by simp
next
  case (UpdateCommon sets k')
  with assms(3) owner_is_keys [OF keys_map_set_cols] show ?thesis by simp
next
  case (InsertRow k' cols)
  with assms(3) show ?thesis by (simp add: owner_is_append)
next
  case Commit
  with assms show ?thesis by simp
qed (use assms(3) in simp_all)

lemma keeps_ret [intro!, simp]: "keeps_owner i owner (ret a)"
  by (simp add: keeps_owner_def ret_def)

lemma keeps_throw [intro!, simp]: "keeps_owner i owner (throw e)"
  by (simp add: keeps_owner_def throw_def)

lemma keeps_bnd [intro!]:
  "keeps_owner i owner m \<Longrightarrow> (\<And>a. keeps_owner i owner (f a)) \<Longrightarrow> keeps_owner i owner (bnd m f)"
  by (auto simp: keeps_owner_def bnd_def split: prod.splits sum.splits)

lemma keeps_if [intro!]:
  "keeps_owner i owner m \<Longrightarrow> keeps_owner i owner n \<Longrightarrow> keeps_owner i owner (if b then m else n)"
  by simp

lemma keeps_execute [intro]:
  assumes "scoped k s" and "owner \<noteq> k"
  shows "keeps_owner i owner (execute F s)"
proof -
  have "owner_is (working (snd (execute F s c))) i owner" if "owner_is (working c) i owner" for c
    using run_stmt_owner [OF assms, of "c\<lparr>issued := issued c @ [s]\<rparr>" i] that
    by (cases "run_stmt s (c\<lparr>issued := issued c @ [s]\<rparr>)") (simp add: execute_def Let_def)
  then show ?thesis by (simp add: keeps_owner_def)
qed

lemma keepsD:
  "keeps_owner i owner m \<Longrightarrow> owner_is (working c) i owner \<Longrightarrow> m c = (r, c') \<Longrightarrow>
     owner_is (working c') i owner"
  by (auto simp: keeps_owner_def dest!: spec [of _ c])

lemma keeps_handle_deletions: "owner \<noteq> k \<Longrightarrow> keeps_owner i owner (handle_deletions F oe k dels)"
  unfolding handle_deletions_def verify_deletions_def
  by (intro keeps_bnd keeps_if keeps_execute keeps_ret keeps_throw) simp_all

lemma keeps_update_item: "owner \<noteq> k \<Longrightarrow> keeps_owner i owner (update_item F oe k u)"
  unfolding update_item_def check_item_def
  by (intro keeps_bnd keeps_if keeps_execute keeps_ret keeps_throw) (simp_all split: list.splits)

lemma check_item_wrong_order:
  assumes "owner_is (working c) i found" and "found \<noteq> k"
  shows "isl (fst (check_item F k i c))"
    and "\<not> F (length (issued c)) \<Longrightarrow> fst (check_item F k i c) = Inl (ItemWrongOrder i found k)"
  using assms
  by (auto simp: check_item_def bnd_def execute_def Let_def owner_is_def throw_def split: list.splits)

lemma isl_bnd_first: "isl (fst (m c)) \<Longrightarrow> isl (fst (bnd m f c))"
  by (auto simp: bnd_def split: prod.splits sum.splits)

lemma isl_bnd_second:
  "(\<And>a c1. m c = (Inr a, c1) \<Longrightarrow> isl (fst (f a c1))) \<Longrightarrow> isl (fst (bnd m f c))"
  by (auto simp: bnd_def split: prod.splits sum.splits)

lemma updates_reach_wrong_order:
  assumes "x \<in> set us" and "found \<noteq> k"
  shows "owner_is (working c) (id_or_zero x) found \<Longrightarrow> isl (fst (handle_updates F True k us c))"
  using assms(1)
proof (induction us arbitrary: c)
  case Nil
  then show ?case by simp
next
  case (Cons u us)
  show ?case
  proof (cases "u = x")
    case True
    have "isl (fst (update_item F True k x c))"
      unfolding update_item_def
      by (rule isl_bnd_first) (simp add: check_item_wrong_order(1) [OF Cons.prems(1) assms(2)])
    with True show ?thesis by (simp add: isl_bnd_first)
  next
    case False
    with Cons.prems(2) have x: "x \<in> set us" by simp
    show ?thesis
      unfolding handle_updates.simps
    proof (rule isl_bnd_second)
      fix a c1
      assume "update_item F True k u c = (Inr a, c1)"
      from keepsD [OF keeps_update_item [OF assms(2)] Cons.prems(1) this]
      show "isl (fst (handle_updates F True k us c1))"
        by (rule Cons.IH [OF _ x])
    qed
  qed
qed

lemma mutations_reach_wrong_order:
  assumes "rows_of k (working c) \<noteq> []" and "x \<in> set (itemsToUpdate a)" and "found \<noteq> k"
    and "owner_is (working c) (id_or_zero x) found"
  shows "isl (fst (mutations_test F today k a c))"
  unfolding mutations_test_present [OF assms(1)]
proof (rule isl_bnd_second)
  fix r0 c0
  assume 0: "execute F Begin c = (Inr r0, c0)"
  have o0: "owner_is (working c0) (id_or_zero x) found"
    by (rule keepsD [OF keeps_execute [OF _ assms(3)] assms(4) 0]) simp
  show "isl (fst (bnd (execute F (SelectCount k)) (\<lambda>_.
         bnd (handle_deletions F True k (itemsToDelete a)) (\<lambda>_.
         bnd (handle_updates F True k (itemsToUpdate a)) (\<lambda>_.
         bnd (handle_insertions F k (commonOrderDetails today a) (itemsToInsert a)) (\<lambda>_.
         update_common F True k (itemsToInsert a) (commonOrderDetails today a))))) c0))"
  proof (rule isl_bnd_second)
    fix r1 c1
    assume 1: "execute F (SelectCount k) c0 = (Inr r1, c1)"
    have o1: "owner_is (working c1) (id_or_zero x) found"
      by (rule keepsD [OF keeps_execute [OF _ assms(3)] o0 1]) simp
    show "isl (fst (bnd (handle_deletions F True k (itemsToDelete a)) (\<lambda>_.
         bnd (handle_updates F True k (itemsToUpdate a)) (\<lambda>_.
         bnd (handle_insertions F k (commonOrderDetails today a) (itemsToInsert a)) (\<lambda>_.
         update_common F True k (itemsToInsert a) (commonOrderDetails today a)))) c1))"
    proof (rule isl_bnd_second)
      fix r2 c2
      assume 2: "handle_deletions F True k (itemsToDelete a) c1 = (Inr r2, c2)"
      have o2: "owner_is (working c2) (id_or_zero x) found"
        by (rule keepsD [OF keeps_handle_deletions [OF assms(3)] o1 2])
      show "isl (fst (bnd (handle_updates F True k (itemsToUpdate a)) (\<lambda>_.
         bnd (handle_insertions F k (commonOrderDetails today a) (itemsToInsert a)) (\<lambda>_.
         update_common F True k (itemsToInsert a) (commonOrderDetails today a))) c2))"
        by (rule isl_bnd_first) (rule updates_reach_wrong_order [OF assms(2,3) o2])
    qed
  qed
qed


lemma update_item_passes:
  assumes "\<forall>n. \<not> F n" and "owner_is (working c) (id_or_zero u) k"
  shows "\<exists>c1. update_item F True k u c = (Inr (), c1) \<and> keys (working c1) = keys (working c)"
proof -
  from assms(2) obtain more where
    o: "map rorder (filter (\<lambda>r. rid r = id_or_zero u) (working c)) = k # more"
    by (auto simp: owner_is_def split: list.splits)
  from owner_is_member [OF assms(2)]
  have n: "length (filter (\<lambda>r. rid r = id_or_zero u \<and> rorder r = k) (working c)) \<noteq> 0"
    by simp
  show ?thesis
    using assms(1) o n
    by (simp add: update_item_def check_item_def bnd_def execute_def Let_def ret_def throw_def)
qed

lemma updates_name_wrong_order:
  assumes "\<forall>n. \<not> F n" and "found \<noteq> k"
  shows "\<forall>u\<in>set pre. owner_is (working c) (id_or_zero u) k \<Longrightarrow>
         owner_is (working c) (id_or_zero x) found \<Longrightarrow>
         fst (handle_updates F True k (pre @ x # post) c) = Inl (ItemWrongOrder (id_or_zero x) found k)"
proof (induction pre arbitrary: c)
  case Nil
  from check_item_wrong_order(2) [OF Nil(2) assms(2), of F] assms(1)
  have "fst (check_item F k (id_or_zero x) c) = Inl (ItemWrongOrder (id_or_zero x) found k)"
    by simp
  then show ?case
    by (cases "check_item F k (id_or_zero x) c") (simp add: update_item_def bnd_def)
next
  case (Cons u pre)
  from Cons.prems(1) have "owner_is (working c) (id_or_zero u) k" by simp
  from update_item_passes [OF assms(1) this] obtain c1
    where 1: "update_item F True k u c = (Inr (), c1)" and k: "keys (working c1) = keys (working c)"
    by blast
  from Cons.prems owner_is_keys [OF k]
  have "\<forall>u\<in>set pre. owner_is (working c1) (id_or_zero u) k"
    and "owner_is (working c1) (id_or_zero x) found"
    by simp_all
  from Cons.IH [OF this] 1 show ?case by (simp add: bnd_def)
qed

lemma mutations_name_wrong_order:
  assumes "\<forall>n. \<not> F n" and "found \<noteq> k" and "rows_of k (working c) \<noteq> []"
    and "itemsToDelete a = []" and "itemsToUpdate a = pre @ x # post"
    and "\<forall>u\<in>set pre. owner_is (working c) (id_or_zero u) k"
    and "owner_is (working c) (id_or_zero x) found"
  shows "fst (mutations_test F today k a c) = Inl (ItemWrongOrder (id_or_zero x) found k)"
proof -
  let ?c2 = "c\<lparr>issued := issued c @ [Begin, SelectCount k]\<rparr>"
  have w: "working ?c2 = working c" by simp
  from updates_name_wrong_order [OF assms(1,2), of pre ?c2 x post] assms(6,7)
  have "fst (handle_updates F True k (pre @ x # post) ?c2) = Inl (ItemWrongOrder (id_or_zero x) found k)"
    unfolding w by blast
  then obtain c3 where "handle_updates F True k (pre @ x # post) ?c2
      = (Inl (ItemWrongOrder (id_or_zero x) found k), c3)"
    by (cases "handle_updates F True k (pre @ x # post) ?c2") simp
  then show ?thesis
    using assms(1,3,4,5)
    by (simp add: mutations_test_def bnd_def execute_def Let_def rows_of_def handle_deletions_def
        ret_def)
qed

subsection \<open>The header values and their propagation\<close>






lemma commonValues_eq: "commonValues cd = map (\<lambda>f. (f, detail cd f)) commonFields"
  by (simp add: commonValues_def commonFields_def)





subsection \<open>Submitting the persisted rows back\<close>

lemma item_of_row_simps [simp]:
  "id_or_zero (item_of_row cols r) = rid r"
  "has_id (item_of_row cols r) = (rid r \<noteq> 0)"
  "item_deleted (item_of_row cols r) = False"
  "item_fields (item_of_row cols r) = map (\<lambda>f. (f, rcols r f)) cols"
  by (simp_all add: item_of_row_def id_or_zero_def has_id_def)

lemma fold_cols_same:
  "\<forall>(f, v)\<in>set sets. g f = v \<Longrightarrow> fold (\<lambda>(k, v) g. g(k := v)) sets g = g"
proof (induction sets)
  case Nil
  then show ?case by simp
next
  case (Cons p sets)
  obtain k' v' where p: "p = (k', v')" by (cases p)
  with Cons.prems have "g k' = v'" by simp
  then have u: "g(k' := v') = g" by auto
  from Cons.prems have rest: "\<forall>(f, v)\<in>set sets. g f = v" by simp
  have "fold (\<lambda>(k, v) g. g(k := v)) (p # sets) g = fold (\<lambda>(k, v) g. g(k := v)) sets (g(k' := v'))"
    by (simp only: p fold_simps comp_apply prod.case)
  also have "\<dots> = fold (\<lambda>(k, v) g. g(k := v)) sets g"
    by (simp only: u)
  also have "\<dots> = g"
    by (rule Cons.IH [OF rest])
  finally show ?case .
qed

lemma set_cols_same: "\<forall>(f, v)\<in>set sets. rcols r f = v \<Longrightarrow> set_cols sets r = r"
  by (simp add: set_cols_def fold_cols_same)

lemma filter_rid_distinct:
  "distinct (map rid w) \<Longrightarrow> r \<in> set w \<Longrightarrow> filter (\<lambda>r'. rid r' = rid r) w = [r]"
proof (induction w)
  case Nil
  then show ?case by simp
next
  case (Cons a w)
  show ?case
  proof (cases "a = r")
    case True
    with Cons.prems(1) have "rid r \<notin> rid ` set w" by simp
    then have "\<forall>r'\<in>set w. rid r' \<noteq> rid r" by (metis imageI)
    then have "filter (\<lambda>r'. rid r' = rid r) w = []" by (simp add: filter_empty_conv)
    with True show ?thesis by simp
  next
    case False
    with Cons.prems have "r \<in> set w" "distinct (map rid w)" "rid a \<noteq> rid r" by auto
    with Cons.IH show ?thesis by simp
  qed
qed

lemma execute_ok:
  "\<forall>n. \<not> F n \<Longrightarrow> placeholders s = bind_values s \<Longrightarrow> execute F s c
     = (Inr (fst (run_stmt s (c\<lparr>issued := issued c @ [s]\<rparr>))),
        snd (run_stmt s (c\<lparr>issued := issued c @ [s]\<rparr>)))"
  by (simp add: execute_def Let_def split: prod.splits)

lemma update_item_unchanged:
  assumes "\<forall>n. \<not> F n" and "distinct (map rid (working c))"
    and "r \<in> set (working c)" and "rorder r = k"
  shows "\<exists>c'. update_item F True k (item_of_row cols r) c = (Inr (), c')
             \<and> working c' = working c \<and> committed c' = committed c"
proof -
  let ?sets = "filterFields allowedFields_test (map (\<lambda>f. (f, rcols r f)) cols)"
  let ?c1 = "c\<lparr>issued := issued c @ [SelectItem (rid r)]\<rparr>"
  let ?c2 = "?c1\<lparr>issued := issued ?c1 @ [UpdateRow ?sets (rid r) k]\<rparr>"
  note f = filter_rid_distinct [OF assms(2,3)]
  have chk: "check_item F k (rid r) c = (Inr (), ?c1)"
    using assms(4) f by (simp add: check_item_def bnd_def execute_ok [OF assms(1)] ret_def)
  have same: "set_cols ?sets r = r"
    by (rule set_cols_same) (auto simp: filterFields_def)
  have m: "map (\<lambda>r'. if rid r' = rid r \<and> rorder r' = k then set_cols ?sets r' else r') (working c)
             = working c"
  proof (rule map_idI)
    fix r' assume r': "r' \<in> set (working c)"
    show "(if rid r' = rid r \<and> rorder r' = k then set_cols ?sets r' else r') = r'"
    proof (cases "rid r' = rid r")
      case True
      with r' have "r' \<in> set (filter (\<lambda>x. rid x = rid r) (working c))" by simp
      then have "r' = r" unfolding f by simp
      with same show ?thesis by simp
    next
      case False
      then show ?thesis by simp
    qed
  qed
  have n: "filter (\<lambda>r'. rid r' = rid r \<and> rorder r' = k) (working c) \<noteq> []"
    using assms(3,4) by (auto simp: filter_empty_conv)
  show ?thesis
  proof (cases "?sets = []")
    case True
    with chk show ?thesis by (simp add: update_item_def bnd_def ret_def)
  next
    case False
    with chk m n show ?thesis
      by (simp add: update_item_def bnd_def execute_ok [OF assms(1)] ret_def)
  qed
qed

lemma handle_updates_unchanged:
  assumes "\<forall>n. \<not> F n"
  shows "distinct (map rid (working c)) \<Longrightarrow>
         \<forall>u\<in>set us. \<exists>r\<in>set (working c). rorder r = k \<and> u = item_of_row cols r \<Longrightarrow>
         \<exists>c'. handle_updates F True k us c = (Inr (), c')
             \<and> working c' = working c \<and> committed c' = committed c"
proof (induction us arbitrary: c)
  case Nil
  then show ?case by (simp add: ret_def)
next
  case (Cons u us)
  from Cons.prems(2) obtain r where r: "r \<in> set (working c)" "rorder r = k" "u = item_of_row cols r"
    by auto
  from update_item_unchanged [OF assms Cons.prems(1) r(1,2), of cols] r(3)
  obtain c1 where 1: "update_item F True k u c = (Inr (), c1)"
    and w: "working c1 = working c" "committed c1 = committed c"
    by auto
  from Cons.prems w have "distinct (map rid (working c1))"
    and "\<forall>u\<in>set us. \<exists>r\<in>set (working c1). rorder r = k \<and> u = item_of_row cols r"
    by simp_all
  from Cons.IH [OF this] obtain c' where "handle_updates F True k us c1 = (Inr (), c')"
    "working c' = working c1" "committed c' = committed c1"
    by auto
  with 1 w show ?case by (simp add: bnd_def)
qed

lemma resubmitted_partition:
  assumes "\<forall>r\<in>set rs. rid r \<noteq> 0"
  shows "itemsToInsert (sortItems (map (item_of_row cols) rs)) = []"
    and "itemsToDelete (sortItems (map (item_of_row cols) rs)) = []"
    and "itemsToUpdate (sortItems (map (item_of_row cols) rs)) = sortItems (map (item_of_row cols) rs)"
    and "length (sortItems (map (item_of_row cols) rs)) = length rs"
  using assms
  by (auto simp: itemsToInsert_def itemsToDelete_def itemsToUpdate_def sortItems_def
      filter_empty_conv filter_id_conv)

lemma header_update_unchanged:
  assumes "\<forall>n. \<not> F n"
    and "\<forall>r\<in>set (rows_of k (working c)). \<forall>f\<in>set commonFields. rcols r f = detail cd f"
  shows "\<exists>c'. update_common F True k ins cd c = (Inr (), c')
             \<and> working c' = working c \<and> committed c' = committed c"
proof -
  have "map (\<lambda>r. if rorder r = k then set_cols (commonValues cd) r else r) (working c) = working c"
  proof (rule map_idI)
    fix r assume r: "r \<in> set (working c)"
    show "(if rorder r = k then set_cols (commonValues cd) r else r) = r"
    proof (cases "rorder r = k")
      case True
      with r assms(2) have "\<forall>f\<in>set commonFields. rcols r f = detail cd f"
        by (simp add: rows_of_def)
      then have "set_cols (commonValues cd) r = r"
        by (intro set_cols_same) (auto simp: commonValues_eq)
      with True show ?thesis by simp
    next
      case False
      then show ?thesis by simp
    qed
  qed
  then show ?thesis
    by (simp add: update_common_def bnd_def execute_ok [OF assms(1)] ret_def)
qed

lemma resubmit_test:
  assumes "\<not> blank k" and "\<forall>n. \<not> F n" and "rows_of k (committed c) \<noteq> []"
    and "distinct (map rid (committed c))"
    and "\<forall>r\<in>set (rows_of k (committed c)). rid r \<noteq> 0"
    and "\<forall>r\<in>set (rows_of k (committed c)). \<forall>f\<in>set commonFields.
           rcols r f = detail (commonOrderDetails today
             (sortItems (map (item_of_row cols) (rows_of k (committed c))))) f"
  shows "fst (reconcile_test F today c k (map (item_of_row cols) (rows_of k (committed c))))
           = Inr \<lparr>data = sort_key rid (rows_of k (committed c)), inserted = 0,
                  updated = length (rows_of k (committed c)), deleted = 0\<rparr>
       \<and> committed (snd (reconcile_test F today c k (map (item_of_row cols) (rows_of k (committed c)))))
           = committed c"
proof -
  let ?rs = "rows_of k (committed c)"
  let ?body = "map (item_of_row cols) ?rs"
  let ?a = "sortItems ?body"
  let ?cd = "commonOrderDetails today ?a"
  let ?c0 = "getConnection c"
  let ?c2 = "?c0\<lparr>issued := issued ?c0 @ [Begin, SelectCount k]\<rparr>"
  note p = resubmitted_partition [OF assms(5), of cols]
  have ne: "?body \<noteq> []" using assms(3) by simp
  have us: "\<forall>u\<in>set ?a. \<exists>r\<in>set (working ?c2). rorder r = k \<and> u = item_of_row cols r"
    by (auto simp: sortItems_def rows_of_def)
  from handle_updates_unchanged [OF assms(2) _ us] assms(4)
  obtain c3 where 3: "handle_updates F True k ?a ?c2 = (Inr (), c3)"
    and w3: "working c3 = committed c" "committed c3 = committed c"
    by auto
  from header_update_unchanged [OF assms(2), of k c3 ?cd "[]"] assms(6) w3
  obtain c5 where 5: "update_common F True k [] ?cd c3 = (Inr (), c5)"
    and w5: "working c5 = committed c" "committed c5 = committed c"
    by auto
  have m: "mutations_test F today k ?a ?c0 = (Inr (), c5)"
    using assms(3) 3 5
    by (simp add: mutations_test_present p handle_deletions_def bnd_def execute_ok [OF assms(2)]
        ret_def)
  have t: "transaction_test F today k ?a ?c0
      = (Inr \<lparr>data = sort_key rid ?rs, inserted = 0, updated = length ?rs, deleted = 0\<rparr>,
         snd (run_stmt (SelectAll k)
           ((snd (run_stmt Commit (c5\<lparr>issued := issued c5 @ [Commit]\<rparr>)))
              \<lparr>issued := issued c5 @ [Commit, SelectAll k]\<rparr>)))"
    using m w5 p
    by (simp add: transaction_test_def bnd_def execute_ok [OF assms(2)] ret_def
        rows_of_def [symmetric])
  show ?thesis
    using assms(1) ne w5 by (simp add: reconcile_test_def t)
qed

lemma update_row_unchanged:
  assumes "distinct (map rid w)" and "r \<in> set w" and "set_cols sets r = r"
  shows "map (\<lambda>r'. if rid r' = rid r \<and> rorder r' = k then set_cols sets r' else r') w = w"
proof (rule map_idI)
  fix r' assume r': "r' \<in> set w"
  show "(if rid r' = rid r \<and> rorder r' = k then set_cols sets r' else r') = r'"
  proof (cases "rid r' = rid r")
    case True
    with r' have "r' \<in> set (filter (\<lambda>x. rid x = rid r) w)" by simp
    then have "r' = r" unfolding filter_rid_distinct [OF assms(1,2)] by simp
    with assms(3) show ?thesis by simp
  next
    case False
    then show ?thesis by simp
  qed
qed

lemma run_update_operations_unchanged:
  assumes "\<forall>n. \<not> F n"
  shows "distinct (map rid (working c)) \<Longrightarrow>
         \<forall>u\<in>set us. \<exists>r\<in>set (working c). rorder r = k \<and> dates_kept tod cols r \<and> u = item_of_row cols r \<Longrightarrow>
         \<exists>rs' c'. run_operations F (update_operations tod k us) c = (Inr rs', c')
             \<and> working c' = working c \<and> committed c' = committed c"
proof (induction us arbitrary: c)
  case Nil
  then show ?case by (simp add: ret_def)
next
  case (Cons u us)
  from Cons.prems(2) obtain r where r: "r \<in> set (working c)" "rorder r = k" "dates_kept tod cols r"
    "u = item_of_row cols r"
    by auto
  let ?flt = "filterFields allowedFields_routes (map (\<lambda>f. (f, rcols r f)) cols)"
  let ?sets = "update_values tod ?flt"
  from Cons.prems have rest: "\<forall>u\<in>set us. \<exists>r\<in>set (working c). rorder r = k \<and> dates_kept tod cols r \<and> u = item_of_row cols r"
    by simp
  show ?case
  proof (cases "?flt = []")
    case True
    with Cons.IH [OF Cons.prems(1) rest] r(4) show ?thesis by simp
  next
    case False
    have same: "set_cols ?sets r = r"
    proof (rule set_cols_same)
      show "\<forall>(f, v)\<in>set ?sets. rcols r f = v"
        using r(3) by (auto simp: update_values_def filterFields_def dates_kept_def)
    qed
    let ?c1 = "snd (run_stmt (UpdateRow ?sets (rid r) k) (c\<lparr>issued := issued c @ [UpdateRow ?sets (rid r) k]\<rparr>))"
    have w1: "working ?c1 = working c" "committed ?c1 = committed c"
      using update_row_unchanged [OF Cons.prems(1) r(1) same, of k] by simp_all
    with Cons.prems(1) rest have "distinct (map rid (working ?c1))"
      and "\<forall>u\<in>set us. \<exists>r\<in>set (working ?c1). rorder r = k \<and> dates_kept tod cols r \<and> u = item_of_row cols r"
      by simp_all
    from Cons.IH [OF this] obtain rs' c' where
      "run_operations F (update_operations tod k us) ?c1 = (Inr rs', c')"
      "working c' = working ?c1" "committed c' = committed ?c1"
      by blast
    with False r(4) w1 show ?thesis
      by (simp add: bnd_def execute_ok [OF assms] ret_def)
  qed
qed

lemma resubmit_routes:
  assumes "\<not> blank k" and "\<forall>n. \<not> F n" and "rows_of k (committed c) \<noteq> []"
    and "distinct (map rid (committed c))"
    and "\<forall>r\<in>set (rows_of k (committed c)). rid r \<noteq> 0"
    and "\<forall>r\<in>set (rows_of k (committed c)). dates_kept tod cols r"
  shows "fst (reconcile_routes F tod now c k (map (item_of_row cols) (rows_of k (committed c))))
           = Inr \<lparr>data = sort_key rid (rows_of k (committed c)), inserted = 0,
                  updated = length (rows_of k (committed c)), deleted = 0\<rparr>
       \<and> committed (snd (reconcile_routes F tod now c k (map (item_of_row cols) (rows_of k (committed c)))))
           = committed c"
proof -
  let ?rs = "rows_of k (committed c)"
  let ?body = "map (item_of_row cols) ?rs"
  let ?a = "sortItems ?body"
  let ?c0 = "getConnection c"
  note p = resubmitted_partition [OF assms(5), of cols]
  have ne: "?body \<noteq> []" using assms(3) by simp
  have ops: "operations tod now k ?a = update_operations tod k ?a"
    by (simp add: operations_def p delete_operations_def insert_operations_def)
  have us: "\<forall>u\<in>set ?a. \<exists>r\<in>set (working ?c0). rorder r = k \<and> dates_kept tod cols r \<and> u = item_of_row cols r"
    using assms(6) by (auto simp: sortItems_def rows_of_def)
  from run_update_operations_unchanged [OF assms(2) _ us] assms(4)
  obtain rs' c1 where 1: "run_operations F (update_operations tod k ?a) ?c0 = (Inr rs', c1)"
    and w1: "working c1 = committed c" "committed c1 = committed c"
    by auto
  have t: "executeTransaction F (operations tod now k ?a) c
      = (Inr rs', close (snd (run_stmt Commit (c1\<lparr>issued := issued c1 @ [Commit]\<rparr>))))"
    using 1 by (simp add: executeTransaction_def ops bnd_def execute_ok [OF assms(2)] ret_def)
  show ?thesis
    using assms(1) ne w1 p
    by (simp add: reconcile_routes_def t bnd_def executeQuery_def execute_ok [OF assms(2)]
        ret_def getConnection_def close_def rows_of_def [symmetric])
qed

subsection \<open>What the two handlers share\<close>

lemma same_allowed_fields: "set allowedFields_test = set allowedFields_routes"
  by (auto simp: allowedFields_test_def allowedFields_routes_def)

lemma reconcile_routes_counts:
  assumes "reconcile_routes G tod now c k body = (Inr r, c')"
  shows "inserted r = length (itemsToInsert (sortItems body))
       \<and> updated r = length (itemsToUpdate (sortItems body))
       \<and> deleted r = length (itemsToDelete (sortItems body))"
  using assms
  by (auto simp: reconcile_routes_def bnd_def ret_def split: if_splits prod.splits sum.splits)

subsection \<open>Requests with nothing to insert, update or delete\<close>

lemma mutations_test_nothing_to_insert:
  assumes "rows_of k (working c) = []" and "itemsToInsert a = []"
    and "\<not> F (length (issued c))" and "\<not> F (Suc (length (issued c)))"
  shows "mutations_test F today k a c
           = (Inl (OrderMissingNoItems k), c\<lparr>issued := issued c @ [Begin, SelectCount k]\<rparr>)"
  using assms
  by (simp add: mutations_test_def execute_def bnd_def throw_def Let_def rows_of_def)

lemma reconcile_test_nothing_to_insert:
  assumes "rows_of k (committed c) = []" and "itemsToInsert (sortItems body) = []"
    and "\<not> F (length (issued c))" and "\<not> F (Suc (length (issued c)))"
    and "\<not> blank k" and "body \<noteq> []"
  shows "fst (reconcile_test F today c k body) = Inl (OrderMissingNoItems k)"
    and "new_statements c (snd (reconcile_test F today c k body)) = [Begin, SelectCount k]"
proof -
  have m: "mutations_test F today k (sortItems body) (getConnection c)
      = (Inl (OrderMissingNoItems k),
         (getConnection c)\<lparr>issued := issued (getConnection c) @ [Begin, SelectCount k]\<rparr>)"
    using assms(1-4) by (intro mutations_test_nothing_to_insert) simp_all
  have t: "transaction_test F today k (sortItems body) (getConnection c)
      = (Inl (OrderMissingNoItems k),
         (getConnection c)\<lparr>issued := issued (getConnection c) @ [Begin, SelectCount k]\<rparr>)"
    unfolding transaction_test_def using m by (rule bnd_Inl)
  show "fst (reconcile_test F today c k body) = Inl (OrderMissingNoItems k)"
    and "new_statements c (snd (reconcile_test F today c k body)) = [Begin, SelectCount k]"
    using assms(5,6) by (simp_all add: reconcile_test_def t new_statements_def)
qed

lemma flagged_partition:
  assumes "item_deleted x" and "\<not> has_id x"
  shows "itemsToInsert (sortItems [x]) = []" and "itemsToUpdate (sortItems [x]) = []"
    and "itemsToDelete (sortItems [x]) = []" and "validItems (sortItems [x]) = []"
  using assms
  by (simp_all add: sortItems_def itemsToInsert_def itemsToUpdate_def itemsToDelete_def
      validItems_def)

lemma flagged_alone_test:
  assumes "item_deleted x" and "\<not> has_id x" and "\<not> blank k" and "\<forall>n. \<not> F n"
    and "rows_of k (committed c) \<noteq> []"
  shows "committed (snd (reconcile_test F today c k [x]))
           = map (\<lambda>r. if rorder r = k then set_cols (commonValues (defaultOrderDetails today)) r else r)
               (committed c)"
    and "fst (reconcile_test F today c k [x])
           = Inr \<lparr>data = sort_key rid (rows_of k (committed (snd (reconcile_test F today c k [x])))),
                  inserted = 0, updated = 0, deleted = 0\<rparr>"
    and "new_statements c (snd (reconcile_test F today c k [x]))
           = [Begin, SelectCount k, UpdateCommon (commonValues (defaultOrderDetails today)) k,
              Commit, SelectAll k]"
proof -
  note p = flagged_partition [OF assms(1,2)]
  have cd: "commonOrderDetails today (sortItems [x]) = defaultOrderDetails today"
    by (simp add: commonOrderDetails_def p priorityItem_def)
  define c0 where "c0 = getConnection c"
  have c0: "working c0 = committed c" "committed c0 = committed c" "issued c0 = issued c"
    by (simp_all add: c0_def getConnection_def)
  have ne: "rows_of k (working c0) \<noteq> []"
    using assms(5) c0 by simp
  have m: "mutations_test F today k (sortItems [x]) c0
      = (Inr (),
         c0\<lparr>issued := issued c @ [Begin, SelectCount k,
                UpdateCommon (commonValues (defaultOrderDetails today)) k],
            working := map (\<lambda>r. if rorder r = k then set_cols (commonValues (defaultOrderDetails today)) r else r)
                     (committed c)\<rparr>)"
    unfolding mutations_test_present [OF ne] p cd
    using assms(4) c0
    by (simp add: handle_deletions_def update_common_def bnd_def ret_def execute_def Let_def)
  have t: "transaction_test F today k (sortItems [x]) (getConnection c)
      = (Inr \<lparr>data = sort_key rid (rows_of k
                  (map (\<lambda>r. if rorder r = k then set_cols (commonValues (defaultOrderDetails today)) r else r)
                     (committed c))),
              inserted = 0, updated = 0, deleted = 0\<rparr>,
         c0
           \<lparr>issued := issued c @ [Begin, SelectCount k,
                UpdateCommon (commonValues (defaultOrderDetails today)) k, Commit, SelectAll k],
            working := map (\<lambda>r. if rorder r = k then set_cols (commonValues (defaultOrderDetails today)) r else r)
                     (committed c),
            committed := map (\<lambda>r. if rorder r = k then set_cols (commonValues (defaultOrderDetails today)) r else r)
                     (committed c)\<rparr>)"
    unfolding transaction_test_def c0_def [symmetric]
    using assms(4)
    by (simp add: bnd_def m p ret_def execute_def Let_def rows_of_def [symmetric])
  show "committed (snd (reconcile_test F today c k [x]))
           = map (\<lambda>r. if rorder r = k then set_cols (commonValues (defaultOrderDetails today)) r else r)
               (committed c)"
    using assms(3) by (simp add: reconcile_test_def t)
  then show "fst (reconcile_test F today c k [x])
           = Inr \<lparr>data = sort_key rid (rows_of k (committed (snd (reconcile_test F today c k [x])))),
                  inserted = 0, updated = 0, deleted = 0\<rparr>"
    using assms(3) by (simp add: reconcile_test_def t)
  show "new_statements c (snd (reconcile_test F today c k [x]))
           = [Begin, SelectCount k, UpdateCommon (commonValues (defaultOrderDetails today)) k,
              Commit, SelectAll k]"
    using assms(3) c0 by (simp add: reconcile_test_def t new_statements_def)
qed

lemma flagged_alone_routes:
  assumes "item_deleted x" and "\<not> has_id x" and "\<not> blank k" and "\<forall>n. \<not> G n"
  shows "fst (reconcile_routes G tod now c k [x])
           = Inr \<lparr>data = sort_key rid (rows_of k (committed c)), inserted = 0, updated = 0, deleted = 0\<rparr>"
    and "committed (snd (reconcile_routes G tod now c k [x])) = committed c"
    and "new_statements c (snd (reconcile_routes G tod now c k [x])) = [Commit, SelectAll k]"
proof -
  note p = flagged_partition [OF assms(1,2)]
  have ops: "operations tod now k (sortItems [x]) = []"
    by (simp add: operations_def p delete_operations_def insert_operations_def)
  have r: "reconcile_routes G tod now c k [x]
      = (Inr \<lparr>data = sort_key rid (rows_of k (committed c)), inserted = 0, updated = 0, deleted = 0\<rparr>,
         c\<lparr>issued := issued c @ [Commit, SelectAll k], working := committed c,
            committed := committed c\<rparr>)"
    using assms(3,4)
    by (simp add: reconcile_routes_def ops p executeTransaction_def executeQuery_def bnd_def ret_def
        execute_def Let_def rows_of_def [symmetric] getConnection_def close_def rollback_def)
  show "fst (reconcile_routes G tod now c k [x])
           = Inr \<lparr>data = sort_key rid (rows_of k (committed c)), inserted = 0, updated = 0, deleted = 0\<rparr>"
    and "committed (snd (reconcile_routes G tod now c k [x])) = committed c"
    and "new_statements c (snd (reconcile_routes G tod now c k [x])) = [Commit, SelectAll k]"
    by (simp_all add: r new_statements_def)
qed

section \<open>The properties\<close>

text \<open>
  C1. Atomicity. When the sequence of statements before the commit (existence lookup,
  deletions, updates, insertions, header propagation in \<^verbatim>\<open>src/test.js\<close>; the operation list
  run by \<^verbatim>\<open>executeTransaction\<close> in \<^verbatim>\<open>src/routes/orders.js\<close>) raises an error \<open>e\<close>, whether
  thrown by the handler or raised by the database, the call answers with exactly that error
  and the committed table is the one from before the call: nothing is partially committed.
\<close>

theorem failed_reconcile_changes_nothing:
  assumes "\<not> blank k" and "body \<noteq> []"
  shows "(fst (mutations_test F today k (sortItems body) (getConnection c)) = Inl e \<longrightarrow>
            fst (reconcile_test F today c k body) = Inl e
          \<and> committed (snd (reconcile_test F today c k body)) = committed c)
       \<and> (fst (run_operations G (operations tod now k (sortItems body)) (getConnection c)) = Inl e' \<longrightarrow>
            fst (reconcile_routes G tod now c k body) = Inl e'
          \<and> committed (snd (reconcile_routes G tod now c k body)) = committed c)"
  using failure_test [OF _ assms, of F today c e] failure_routes [OF _ assms, of G tod now c e']
  by blast

text \<open>
  An instance: row 1 of order A is updated and the update of row 2 is then refused by the
  database (the sixth call in \<^verbatim>\<open>src/test.js\<close>, the second operation in
  \<^verbatim>\<open>src/routes/orders.js\<close>); the first update is not committed.
\<close>

theorem failed_reconcile_changes_nothing_witness:
  "\<not> blank order_A
   \<and> [update_of 1 [(''quantity'', JNum 5)], update_of 2 [(''quantity'', JNum 7)]] \<noteq> []
   \<and> fst (mutations_test (fault_at 5) a_day order_A
        (sortItems [update_of 1 [(''quantity'', JNum 5)], update_of 2 [(''quantity'', JNum 7)]]) (getConnection example_conn))
       = Inl (StorageError 5)
   \<and> fst (reconcile_test (fault_at 5) a_day example_conn order_A
        [update_of 1 [(''quantity'', JNum 5)], update_of 2 [(''quantity'', JNum 7)]]) = Inl (StorageError 5)
   \<and> committed (snd (reconcile_test (fault_at 5) a_day example_conn order_A
        [update_of 1 [(''quantity'', JNum 5)], update_of 2 [(''quantity'', JNum 7)]])) = committed example_conn
   \<and> fst (run_operations (fault_at 1) (operations tod_id a_day order_A
        (sortItems [update_of 1 [(''quantity'', JNum 5)], update_of 2 [(''quantity'', JNum 7)]])) (getConnection example_conn))
       = Inl (StorageError 1)
   \<and> fst (reconcile_routes (fault_at 1) tod_id a_day example_conn order_A
        [update_of 1 [(''quantity'', JNum 5)], update_of 2 [(''quantity'', JNum 7)]]) = Inl (StorageError 1)
   \<and> committed (snd (reconcile_routes (fault_at 1) tod_id a_day example_conn order_A
        [update_of 1 [(''quantity'', JNum 5)], update_of 2 [(''quantity'', JNum 7)]])) = committed example_conn"
proof -
  let ?body = "[update_of 1 [(''quantity'', JNum 5)], update_of 2 [(''quantity'', JNum 7)]]"
  have h1: "\<not> blank order_A"
    by code_simp
  have h2: "?body \<noteq> []"
    by simp
  have h3: "fst (mutations_test (fault_at 5) a_day order_A (sortItems ?body) (getConnection example_conn))
              = Inl (StorageError 5)"
    by code_simp
  have "map_sum id (\<lambda>_. ()) (fst (run_operations (fault_at 1)
          (operations tod_id a_day order_A (sortItems ?body)) (getConnection example_conn)))
        = Inl (StorageError 1)"
    by code_simp
  then have h4: "fst (run_operations (fault_at 1) (operations tod_id a_day order_A (sortItems ?body))
              (getConnection example_conn)) = Inl (StorageError 1)"
    by (cases "fst (run_operations (fault_at 1) (operations tod_id a_day order_A (sortItems ?body))
              (getConnection example_conn))") simp_all
  show ?thesis
    using failed_reconcile_changes_nothing [OF h1 h2, of "fault_at 5" a_day example_conn
        "StorageError 5" "fault_at 1" tod_id a_day "StorageError 1"] h1 h3 h4
    by simp
qed

text \<open>
  C6, as amended. An empty items list is rejected by both handlers before any connection is
  taken, whether or not the order exists: with "Order Number is required" when the order
  number is blank (empty, or only what \<^verbatim>\<open>trim\<close> strips), which is tested first, and with
  "No data provided" otherwise. What depends on the order being absent is another
  rejection, in \<^verbatim>\<open>src/test.js\<close>: a non-empty list without any item to insert, for an order
  that has no row, fails with "does not exist and no new items provided" and commits
  nothing.
\<close>

theorem empty_items_always_rejected:
  "reconcile_test F today c k [] = (Inl (if blank k then OrderNumberRequired else NoDataProvided), c)
   \<and> reconcile_routes G tod now c k [] = (Inl (if blank k then OrderNumberRequired else NoDataProvided), c)
   \<and> (\<not> blank k \<and> body \<noteq> [] \<and> rows_of k (committed c) = [] \<and> itemsToInsert (sortItems body) = []
        \<and> \<not> F (length (issued c)) \<and> \<not> F (Suc (length (issued c)))
      \<longrightarrow> fst (reconcile_test F today c k body) = Inl (OrderMissingNoItems k)
        \<and> committed (snd (reconcile_test F today c k body)) = committed c)"
proof -
  have "fst (reconcile_test F today c k body) = Inl (OrderMissingNoItems k)
        \<and> committed (snd (reconcile_test F today c k body)) = committed c"
    if h: "\<not> blank k" "body \<noteq> []" "rows_of k (committed c) = []" "itemsToInsert (sortItems body) = []"
      "\<not> F (length (issued c))" "\<not> F (Suc (length (issued c)))"
  proof -
    have "fst (mutations_test F today k (sortItems body) (getConnection c)) = Inl (OrderMissingNoItems k)"
      using h by (simp add: mutations_test_def execute_def bnd_def throw_def Let_def rows_of_def getConnection_def)
    from failure_test [OF this h(1,2)] show ?thesis by simp
  qed
  moreover have "reconcile_test F today c k [] = (Inl (if blank k then OrderNumberRequired else NoDataProvided), c)"
    by (simp add: reconcile_test_def)
  moreover have "reconcile_routes G tod now c k [] = (Inl (if blank k then OrderNumberRequired else NoDataProvided), c)"
    by (simp add: reconcile_routes_def)
  ultimately show ?thesis by blast
qed

theorem empty_items_always_rejected_witness:
  "\<not> blank order_C \<and> [update_of 1 [(''quantity'', JNum 7)]] \<noteq> []
   \<and> rows_of order_C (committed example_conn) = []
   \<and> itemsToInsert (sortItems [update_of 1 [(''quantity'', JNum 7)]]) = []
   \<and> \<not> no_fault (length (issued example_conn)) \<and> \<not> no_fault (Suc (length (issued example_conn)))
   \<and> fst (reconcile_test no_fault a_day example_conn order_C [update_of 1 [(''quantity'', JNum 7)]])
       = Inl (OrderMissingNoItems order_C)
   \<and> reconcile_test no_fault a_day example_conn order_A [] = (Inl NoDataProvided, example_conn)
   \<and> blank order_nbsp
   \<and> reconcile_test no_fault a_day example_conn order_nbsp [] = (Inl OrderNumberRequired, example_conn)
   \<and> reconcile_routes no_fault tod_id a_day example_conn order_nbsp []
       = (Inl OrderNumberRequired, example_conn)"
proof -
  have "length (rows_of order_C (committed example_conn)) = 0"
    by code_simp
  then have r: "rows_of order_C (committed example_conn) = []"
    by simp
  have "\<not> blank order_C \<and> [update_of 1 [(''quantity'', JNum 7)]] \<noteq> []
      \<and> itemsToInsert (sortItems [update_of 1 [(''quantity'', JNum 7)]]) = []
      \<and> \<not> no_fault (length (issued example_conn)) \<and> \<not> no_fault (Suc (length (issued example_conn)))"
    by code_simp
  with r have h: "\<not> blank order_C \<and> [update_of 1 [(''quantity'', JNum 7)]] \<noteq> []
      \<and> rows_of order_C (committed example_conn) = []
      \<and> itemsToInsert (sortItems [update_of 1 [(''quantity'', JNum 7)]]) = []
      \<and> \<not> no_fault (length (issued example_conn)) \<and> \<not> no_fault (Suc (length (issued example_conn)))"
    by simp
  have b: "\<not> blank order_A" "blank order_nbsp"
    by code_simp+
  show ?thesis
    using empty_items_always_rejected [of no_fault a_day example_conn order_C no_fault tod_id a_day
        "[update_of 1 [(''quantity'', JNum 7)]]"]
      empty_items_always_rejected [of no_fault a_day example_conn order_A no_fault tod_id a_day "[]"]
      empty_items_always_rejected [of no_fault a_day example_conn order_nbsp no_fault tod_id a_day "[]"]
      h b
    by simp
qed

text \<open>
  The claim as stated fails: order A has two rows, and the empty list is rejected for it all
  the same, by both handlers.
\<close>

theorem empty_items_on_existing_order_counterexample:
  "length (rows_of order_A (committed example_conn)) = 2
   \<and> fst (reconcile_test no_fault a_day example_conn order_A []) = Inl NoDataProvided
   \<and> fst (reconcile_routes no_fault tod_id a_day example_conn order_A []) = Inl NoDataProvided"
proof -
  have "length (rows_of order_A (committed example_conn)) = 2"
    by code_simp
  moreover have "\<not> blank order_A"
    by code_simp
  ultimately show ?thesis
    by (simp add: reconcile_test_def reconcile_routes_def)
qed

text \<open>
  C8, as amended. An item with a deletion flag and no id (absent, null or 0) is in none of
  the three groups: it adds no delete operation and nothing to the deleted count. In a
  request with other items both handlers do exactly what they do without it: the same
  statements, the same answer, the same error if there is one. A request made of that item
  alone is not rejected as empty and is not without effect: in \<^verbatim>\<open>src/test.js\<close> it fails with
  "does not exist and no new items provided" when the order has no row, and when the order
  has rows it succeeds (no error from the database) and writes the default order details on
  every row of the order; in \<^verbatim>\<open>src/routes/orders.js\<close> it commits an empty transaction and
  succeeds.
\<close>

theorem deleted_item_without_id_is_dropped:
  assumes "item_deleted x" and "\<not> has_id x"
  shows "x \<notin> set (itemsToInsert (sortItems (xs @ x # ys)))
       \<and> x \<notin> set (itemsToUpdate (sortItems (xs @ x # ys)))
       \<and> x \<notin> set (itemsToDelete (sortItems (xs @ x # ys)))
       \<and> itemsToInsert (sortItems (xs @ x # ys)) = itemsToInsert (sortItems (xs @ ys))
       \<and> itemsToUpdate (sortItems (xs @ x # ys)) = itemsToUpdate (sortItems (xs @ ys))
       \<and> itemsToDelete (sortItems (xs @ x # ys)) = itemsToDelete (sortItems (xs @ ys))
       \<and> (xs @ ys \<noteq> [] \<longrightarrow>
            reconcile_test F today c k (xs @ x # ys) = reconcile_test F today c k (xs @ ys)
          \<and> reconcile_routes G tod now c k (xs @ x # ys) = reconcile_routes G tod now c k (xs @ ys))
       \<and> (\<not> blank k \<and> rows_of k (committed c) = []
            \<and> \<not> F (length (issued c)) \<and> \<not> F (Suc (length (issued c))) \<longrightarrow>
            fst (reconcile_test F today c k [x]) = Inl (OrderMissingNoItems k)
          \<and> committed (snd (reconcile_test F today c k [x])) = committed c)
       \<and> (\<not> blank k \<and> rows_of k (committed c) \<noteq> [] \<and> (\<forall>n. \<not> F n) \<longrightarrow>
            fst (reconcile_test F today c k [x])
              = Inr \<lparr>data = sort_key rid (rows_of k (committed (snd (reconcile_test F today c k [x])))),
                     inserted = 0, updated = 0, deleted = 0\<rparr>
          \<and> committed (snd (reconcile_test F today c k [x]))
              = map (\<lambda>r. if rorder r = k then set_cols (commonValues (defaultOrderDetails today)) r else r)
                  (committed c)
          \<and> new_statements c (snd (reconcile_test F today c k [x]))
              = [Begin, SelectCount k, UpdateCommon (commonValues (defaultOrderDetails today)) k,
                 Commit, SelectAll k])
       \<and> (\<not> blank k \<and> (\<forall>n. \<not> G n) \<longrightarrow>
            fst (reconcile_routes G tod now c k [x])
              = Inr \<lparr>data = sort_key rid (rows_of k (committed c)),
                     inserted = 0, updated = 0, deleted = 0\<rparr>
          \<and> committed (snd (reconcile_routes G tod now c k [x])) = committed c
          \<and> new_statements c (snd (reconcile_routes G tod now c k [x])) = [Commit, SelectAll k])"
proof -
  note p = dropped_partitions [OF assms, of xs ys]
  have a: "x \<notin> set (itemsToInsert (sortItems (xs @ x # ys)))"
    "x \<notin> set (itemsToUpdate (sortItems (xs @ x # ys)))"
    "x \<notin> set (itemsToDelete (sortItems (xs @ x # ys)))"
    using assms by (simp_all add: itemsToInsert_def itemsToUpdate_def itemsToDelete_def)
  have b: "xs @ ys \<noteq> [] \<longrightarrow>
            reconcile_test F today c k (xs @ x # ys) = reconcile_test F today c k (xs @ ys)
          \<and> reconcile_routes G tod now c k (xs @ x # ys) = reconcile_routes G tod now c k (xs @ ys)"
  proof (intro impI conjI)
    assume that: "xs @ ys \<noteq> []"
    have n1: "(sortItems (xs @ x # ys) = []) = False" by simp
    have n2: "(sortItems (xs @ ys) = []) = False" using that by simp
    show "reconcile_test F today c k (xs @ x # ys) = reconcile_test F today c k (xs @ ys)"
      unfolding reconcile_test_def n1 n2 transaction_test_cong [OF p, of F today k] by (rule refl)
    show "reconcile_routes G tod now c k (xs @ x # ys) = reconcile_routes G tod now c k (xs @ ys)"
      unfolding reconcile_routes_def n1 n2 operations_cong [OF p(1-3), of tod now k] p(1-3)
      by (rule refl)
  qed
  have d: "\<not> blank k \<and> rows_of k (committed c) = []
            \<and> \<not> F (length (issued c)) \<and> \<not> F (Suc (length (issued c))) \<longrightarrow>
            fst (reconcile_test F today c k [x]) = Inl (OrderMissingNoItems k)
          \<and> committed (snd (reconcile_test F today c k [x])) = committed c"
  proof
    assume h: "\<not> blank k \<and> rows_of k (committed c) = []
            \<and> \<not> F (length (issued c)) \<and> \<not> F (Suc (length (issued c)))"
    have "mutations_test F today k (sortItems [x]) (getConnection c)
        = (Inl (OrderMissingNoItems k),
           (getConnection c)\<lparr>issued := issued (getConnection c) @ [Begin, SelectCount k]\<rparr>)"
      using h flagged_partition(1) [OF assms]
      by (intro mutations_test_nothing_to_insert) simp_all
    then have "fst (mutations_test F today k (sortItems [x]) (getConnection c))
        = Inl (OrderMissingNoItems k)"
      by simp
    from failure_test [OF this] h
    show "fst (reconcile_test F today c k [x]) = Inl (OrderMissingNoItems k)
          \<and> committed (snd (reconcile_test F today c k [x])) = committed c"
      by simp
  qed
  have e: "\<not> blank k \<and> rows_of k (committed c) \<noteq> [] \<and> (\<forall>n. \<not> F n) \<longrightarrow>
            fst (reconcile_test F today c k [x])
              = Inr \<lparr>data = sort_key rid (rows_of k (committed (snd (reconcile_test F today c k [x])))),
                     inserted = 0, updated = 0, deleted = 0\<rparr>
          \<and> committed (snd (reconcile_test F today c k [x]))
              = map (\<lambda>r. if rorder r = k then set_cols (commonValues (defaultOrderDetails today)) r else r)
                  (committed c)
          \<and> new_statements c (snd (reconcile_test F today c k [x]))
              = [Begin, SelectCount k, UpdateCommon (commonValues (defaultOrderDetails today)) k,
                 Commit, SelectAll k]"
  proof (intro impI conjI)
    assume h: "\<not> blank k \<and> rows_of k (committed c) \<noteq> [] \<and> (\<forall>n. \<not> F n)"
    then have h': "\<not> blank k" "\<forall>n. \<not> F n" "rows_of k (committed c) \<noteq> []"
      by simp_all
    note t = flagged_alone_test [where today = today, OF assms h']
    show "fst (reconcile_test F today c k [x])
              = Inr \<lparr>data = sort_key rid (rows_of k (committed (snd (reconcile_test F today c k [x])))),
                     inserted = 0, updated = 0, deleted = 0\<rparr>"
      by (rule t(2))
    show "committed (snd (reconcile_test F today c k [x]))
              = map (\<lambda>r. if rorder r = k then set_cols (commonValues (defaultOrderDetails today)) r else r)
                  (committed c)"
      by (rule t(1))
    show "new_statements c (snd (reconcile_test F today c k [x]))
              = [Begin, SelectCount k, UpdateCommon (commonValues (defaultOrderDetails today)) k,
                 Commit, SelectAll k]"
      by (rule t(3))
  qed
  have g: "\<not> blank k \<and> (\<forall>n. \<not> G n) \<longrightarrow>
            fst (reconcile_routes G tod now c k [x])
              = Inr \<lparr>data = sort_key rid (rows_of k (committed c)),
                     inserted = 0, updated = 0, deleted = 0\<rparr>
          \<and> committed (snd (reconcile_routes G tod now c k [x])) = committed c
          \<and> new_statements c (snd (reconcile_routes G tod now c k [x])) = [Commit, SelectAll k]"
  proof (intro impI conjI)
    assume h: "\<not> blank k \<and> (\<forall>n. \<not> G n)"
    then have h': "\<not> blank k" "\<forall>n. \<not> G n"
      by simp_all
    note t = flagged_alone_routes [where tod = tod and now = now and c = c, OF assms h']
    show "fst (reconcile_routes G tod now c k [x])
              = Inr \<lparr>data = sort_key rid (rows_of k (committed c)),
                     inserted = 0, updated = 0, deleted = 0\<rparr>"
      by (rule t(1))
    show "committed (snd (reconcile_routes G tod now c k [x])) = committed c"
      by (rule t(2))
    show "new_statements c (snd (reconcile_routes G tod now c k [x])) = [Commit, SelectAll k]"
      by (rule t(3))
  qed
  show ?thesis
    by (intro conjI a p(1) p(2) p(3) b d e g)
qed

theorem deleted_item_without_id_is_dropped_witness:
  "item_deleted flag_only \<and> \<not> has_id flag_only
   \<and> [update_of 2 [(''quantity'', JNum 7)]] @ [new_of [(''item_name'', JStr ''Nut'')]] \<noteq> []
   \<and> itemsToDelete (sortItems ([update_of 2 [(''quantity'', JNum 7)]] @ flag_only # [new_of [(''item_name'', JStr ''Nut'')]]))
       = itemsToDelete (sortItems ([update_of 2 [(''quantity'', JNum 7)]] @ [new_of [(''item_name'', JStr ''Nut'')]]))
   \<and> reconcile_test no_fault a_day example_conn order_A
         ([update_of 2 [(''quantity'', JNum 7)]] @ flag_only # [new_of [(''item_name'', JStr ''Nut'')]])
       = reconcile_test no_fault a_day example_conn order_A
         ([update_of 2 [(''quantity'', JNum 7)]] @ [new_of [(''item_name'', JStr ''Nut'')]])
   \<and> reconcile_routes no_fault tod_id a_day example_conn order_A
         ([update_of 2 [(''quantity'', JNum 7)]] @ flag_only # [new_of [(''item_name'', JStr ''Nut'')]])
       = reconcile_routes no_fault tod_id a_day example_conn order_A
         ([update_of 2 [(''quantity'', JNum 7)]] @ [new_of [(''item_name'', JStr ''Nut'')]])
   \<and> length (rows_of order_C (committed example_conn)) = 0
   \<and> fst (reconcile_test no_fault a_day example_conn order_C [flag_only])
       = Inl (OrderMissingNoItems order_C)
   \<and> length (rows_of order_A (committed example_conn)) = 2
   \<and> new_statements example_conn (snd (reconcile_test no_fault a_day example_conn order_A [flag_only]))
       = [Begin, SelectCount order_A, UpdateCommon (commonValues (defaultOrderDetails a_day)) order_A,
          Commit, SelectAll order_A]
   \<and> new_statements example_conn (snd (reconcile_routes no_fault tod_id a_day example_conn order_A [flag_only]))
       = [Commit, SelectAll order_A]
   \<and> map_sum id deleted (fst (reconcile_test no_fault a_day example_conn order_A
         [update_of 2 [(''quantity'', JNum 7)], flag_only])) = Inr 0
   \<and> filter is_delete (issued (snd (reconcile_test no_fault a_day example_conn order_A
         [update_of 2 [(''quantity'', JNum 7)], flag_only]))) = []"
proof -
  have h: "item_deleted flag_only" "\<not> has_id flag_only"
    by (simp_all add: flag_only_def has_id_def)
  have n: "[update_of 2 [(''quantity'', JNum 7)]] @ [new_of [(''item_name'', JStr ''Nut'')]] \<noteq> []"
    by simp
  have e: "map_sum id deleted (fst (reconcile_test no_fault a_day example_conn order_A
         [update_of 2 [(''quantity'', JNum 7)], flag_only])) = Inr 0
    \<and> filter is_delete (issued (snd (reconcile_test no_fault a_day example_conn order_A
         [update_of 2 [(''quantity'', JNum 7)], flag_only]))) = []"
    by code_simp
  have b: "\<not> blank order_A" "\<not> blank order_C"
    by code_simp+
  have l: "length (rows_of order_C (committed example_conn)) = 0"
    "length (rows_of order_A (committed example_conn)) = 2"
    by code_simp+
  then have r: "rows_of order_C (committed example_conn) = []"
    "rows_of order_A (committed example_conn) \<noteq> []"
    by auto
  have f: "\<forall>n. \<not> no_fault n" "\<not> no_fault (length (issued example_conn))"
    "\<not> no_fault (Suc (length (issued example_conn)))"
    by (simp_all add: no_fault_def)
  note t = deleted_item_without_id_is_dropped [OF h, of "[update_of 2 [(''quantity'', JNum 7)]]"
        "[new_of [(''item_name'', JStr ''Nut'')]]" no_fault a_day example_conn order_A no_fault tod_id a_day]
  note u = deleted_item_without_id_is_dropped [OF h, of "[]" "[]" no_fault a_day example_conn order_C
      no_fault tod_id a_day]
  have 0: "itemsToDelete (sortItems ([update_of 2 [(''quantity'', JNum 7)]] @ flag_only # [new_of [(''item_name'', JStr ''Nut'')]]))
       = itemsToDelete (sortItems ([update_of 2 [(''quantity'', JNum 7)]] @ [new_of [(''item_name'', JStr ''Nut'')]]))"
    using t by (simp only: simp_thms)
  have 1: "reconcile_test no_fault a_day example_conn order_A
         ([update_of 2 [(''quantity'', JNum 7)]] @ flag_only # [new_of [(''item_name'', JStr ''Nut'')]])
       = reconcile_test no_fault a_day example_conn order_A
         ([update_of 2 [(''quantity'', JNum 7)]] @ [new_of [(''item_name'', JStr ''Nut'')]])"
    "reconcile_routes no_fault tod_id a_day example_conn order_A
         ([update_of 2 [(''quantity'', JNum 7)]] @ flag_only # [new_of [(''item_name'', JStr ''Nut'')]])
       = reconcile_routes no_fault tod_id a_day example_conn order_A
         ([update_of 2 [(''quantity'', JNum 7)]] @ [new_of [(''item_name'', JStr ''Nut'')]])"
    using n t by (simp_all only: simp_thms)
  have 2: "fst (reconcile_test no_fault a_day example_conn order_C [flag_only])
       = Inl (OrderMissingNoItems order_C)"
    using b r f u by (simp only: simp_thms)
  have 3: "new_statements example_conn (snd (reconcile_test no_fault a_day example_conn order_A [flag_only]))
       = [Begin, SelectCount order_A, UpdateCommon (commonValues (defaultOrderDetails a_day)) order_A,
          Commit, SelectAll order_A]"
    "new_statements example_conn (snd (reconcile_routes no_fault tod_id a_day example_conn order_A [flag_only]))
       = [Commit, SelectAll order_A]"
    using b r f t by (simp_all only: simp_thms)
  show ?thesis
    using h n e l 0 1 2 3 by (simp only: simp_thms)
qed

text \<open>
  The claim as stated fails for a request made of such an item alone, in \<^verbatim>\<open>src/test.js\<close>:
  under order C, which has no row, the call answers with an error; under order A it
  succeeds and the customer name Acme of the two rows of the order is replaced by the empty
  default.
\<close>

theorem lone_flagged_item_counterexample:
  "item_deleted flag_only \<and> \<not> has_id flag_only
   \<and> map_sum id (\<lambda>_. ()) (fst (reconcile_test no_fault a_day example_conn order_C [flag_only]))
       = Inl (OrderMissingNoItems order_C)
   \<and> map (\<lambda>r. rcols r ''customer_name'') (rows_of order_A (committed example_conn))
       = [JStr ''Acme'', JStr ''Acme'']
   \<and> \<not> isl (fst (reconcile_test no_fault a_day example_conn order_A [flag_only]))
   \<and> map (\<lambda>r. rcols r ''customer_name'') (rows_of order_A (committed (snd
         (reconcile_test no_fault a_day example_conn order_A [flag_only]))))
       = [JStr [], JStr []]"
  by code_simp


text \<open>
  C7, as amended. The handlers sort the submitted list by \<^verbatim>\<open>id || 0\<close> before anything
  else, so the update items are processed in ascending order of id (items with the same id
  keep their submission order), not in submission order: the \<open>n\<close>-th UPDATE statement is
  that of the \<open>n\<close>-th update item, among those with an allowed field, of the list sorted
  by id. The insert items all have the key 0 and the sort is stable: they are processed in
  submission order. In \<^verbatim>\<open>src/routes/orders.js\<close> a successful call issues exactly its
  operation list, then the commit and the read-back.
\<close>

theorem updates_by_id_inserts_as_submitted:
  "filter is_update (operations tod now k (sortItems body))
     = update_operations tod k (sort_key id_or_zero (itemsToUpdate body))
   \<and> filter is_insert (operations tod now k (sortItems body))
     = insert_operations tod now k (itemsToInsert body)
   \<and> (reconcile_routes G tod now c k body = (Inr resp', c'') \<longrightarrow>
        new_statements c c'' = operations tod now k (sortItems body) @ [Commit, SelectAll k])
   \<and> (reconcile_test F today c k body = (Inr resp, c') \<longrightarrow>
        filter is_update (new_statements c c')
          = update_statements k (sort_key id_or_zero (itemsToUpdate body))
      \<and> filter is_insert (new_statements c c')
          = insert_statements k (commonOrderDetails today (sortItems body)) (itemsToInsert body))"
proof -
  have u: "filter is_update (update_operations tod k us) = update_operations tod k us"
    "filter is_insert (update_operations tod k us) = []" for us
    by (induction us) simp_all
  have i: "filter is_update (insert_operations tod now k ns) = []"
    "filter is_insert (insert_operations tod now k ns) = insert_operations tod now k ns" for ns
    by (induction ns) (simp_all add: insert_operations_def)
  have d: "filter is_update (delete_operations k ds) = []"
    "filter is_insert (delete_operations k ds) = []" for ds
    by (simp_all add: delete_operations_def)
  have 1: "filter is_update (operations tod now k (sortItems body))
            = update_operations tod k (sort_key id_or_zero (itemsToUpdate body))"
    by (simp add: operations_def u i d itemsToUpdate_sortItems)
  have 2: "filter is_insert (operations tod now k (sortItems body))
            = insert_operations tod now k (itemsToInsert body)"
    by (simp add: operations_def u i d itemsToInsert_sortItems)
  have 3: "new_statements c c'' = operations tod now k (sortItems body) @ [Commit, SelectAll k]"
    if r: "reconcile_routes G tod now c k body = (Inr resp', c'')"
  proof -
    let ?ops = "operations tod now k (sortItems body)"
    from r have nb: "\<not> blank k" "sortItems body \<noteq> []"
      by (auto simp: reconcile_routes_def split: if_splits)
    with r have "bnd (executeTransaction G ?ops) (\<lambda>_.
           bnd (executeQuery G (SelectAll k)) (\<lambda>result.
             ret \<lparr>data = res_rows result,
                  inserted = length (itemsToInsert (sortItems body)),
                  updated = length (itemsToUpdate (sortItems body)),
                  deleted = length (itemsToDelete (sortItems body))\<rparr>)) c = (Inr resp', c'')"
      by (simp add: reconcile_routes_def)
    from bnd_success [OF this] obtain rs c1 where t: "executeTransaction G ?ops c = (Inr rs, c1)"
      and q: "bnd (executeQuery G (SelectAll k)) (\<lambda>result.
             ret \<lparr>data = res_rows result,
                  inserted = length (itemsToInsert (sortItems body)),
                  updated = length (itemsToUpdate (sortItems body)),
                  deleted = length (itemsToDelete (sortItems body))\<rparr>) c1 = (Inr resp', c'')"
      by auto
    from t obtain c0 where t0: "bnd (run_operations G ?ops) (\<lambda>results. bnd (execute G Commit) (\<lambda>_. ret results))
             (getConnection c) = (Inr rs, c0)" and c1: "c1 = close c0"
      by (auto simp: executeTransaction_def split: prod.splits sum.splits)
    from bnd_success [OF t0] obtain rs' ca where ro: "run_operations G ?ops (getConnection c) = (Inr rs', ca)"
      and cm: "bnd (execute G Commit) (\<lambda>_. ret rs') ca = (Inr rs, c0)"
      by auto
    from bnd_success [OF cm] obtain x cb where cm': "execute G Commit ca = (Inr x, cb)"
      and "ret rs' cb = (Inr rs, c0)" by auto
    then have cb: "cb = c0" by (simp add: ret_def)
    from bnd_success [OF q] obtain r3 c3 where s: "executeQuery G (SelectAll k) c1 = (Inr r3, c3)"
      and "ret \<lparr>data = res_rows r3,
                  inserted = length (itemsToInsert (sortItems body)),
                  updated = length (itemsToUpdate (sortItems body)),
                  deleted = length (itemsToDelete (sortItems body))\<rparr> c3 = (Inr resp', c'')"
      by auto
    then have c3: "c3 = c''" by (simp add: ret_def)
    from s obtain cq where s': "execute G (SelectAll k) (getConnection c1) = (Inr r3, cq)"
      and cq: "c3 = close cq"
      by (auto simp: executeQuery_def split: prod.splits)
    from c3 cq have "c'' = close cq" by simp
    then have "issued c'' = issued c @ ?ops @ [Commit, SelectAll k]"
      using log_run_operations [OF ro] execute_issued [OF cm'] execute_issued [OF s'] cb c1
      by simp
    then show ?thesis by (simp add: new_statements_def)
  qed
  have 4: "filter is_update (new_statements c c')
          = update_statements k (sort_key id_or_zero (itemsToUpdate body))
      \<and> filter is_insert (new_statements c c')
          = insert_statements k (commonOrderDetails today (sortItems body)) (itemsToInsert body)"
    if r: "reconcile_test F today c k body = (Inr resp, c')"
  proof -
    from reconcile_test_success [OF r] obtain c1 c2 r2 c3 r3
      where m: "mutations_test F today k (sortItems body) (getConnection c) = (Inr (), c1)"
        and cm: "execute F Commit c1 = (Inr r2, c2)"
        and s: "execute F (SelectAll k) c2 = (Inr r3, c3)"
        and c': "c' = close c3"
      by blast
    from log_mutations_test [OF m] obtain L where L: "issued c1 = issued c @ L"
      "filter is_update L = update_statements k (itemsToUpdate (sortItems body))"
      "filter is_insert L = insert_statements k (commonOrderDetails today (sortItems body))
         (itemsToInsert (sortItems body))"
      by auto
    have "issued c' = issued c @ L @ [Commit, SelectAll k]"
      using L(1) execute_issued [OF cm] execute_issued [OF s] c' by simp
    then have "new_statements c c' = L @ [Commit, SelectAll k]"
      by (simp add: new_statements_def)
    with L(2,3) show ?thesis
      by (simp add: itemsToUpdate_sortItems itemsToInsert_sortItems)
  qed
  from 1 2 3 4 show ?thesis by blast
qed

theorem updates_by_id_inserts_as_submitted_witness:
  "\<not> isl (fst (reconcile_test no_fault a_day example_conn order_A
      [new_of [(''item_name'', JStr ''Nut'')], update_of 2 [(''quantity'', JNum 7)],
       new_of [(''item_name'', JStr ''Bolt'')], update_of 1 [(''quantity'', JNum 5)]]))
   \<and> filter is_update (new_statements example_conn (snd (reconcile_test no_fault a_day example_conn order_A
      [new_of [(''item_name'', JStr ''Nut'')], update_of 2 [(''quantity'', JNum 7)],
       new_of [(''item_name'', JStr ''Bolt'')], update_of 1 [(''quantity'', JNum 5)]])))
     = [UpdateRow [(''quantity'', JNum 5)] 1 order_A, UpdateRow [(''quantity'', JNum 7)] 2 order_A]
   \<and> map (\<lambda>s. case s of InsertRow k cols \<Rightarrow> map_of cols ''item_name'' | _ \<Rightarrow> None)
       (filter is_insert (new_statements example_conn (snd (reconcile_test no_fault a_day example_conn order_A
      [new_of [(''item_name'', JStr ''Nut'')], update_of 2 [(''quantity'', JNum 7)],
       new_of [(''item_name'', JStr ''Bolt'')], update_of 1 [(''quantity'', JNum 5)]]))))
     = [Some (JStr ''Nut''), Some (JStr ''Bolt'')]"
proof -
  let ?body = "[new_of [(''item_name'', JStr ''Nut'')], update_of 2 [(''quantity'', JNum 7)],
       new_of [(''item_name'', JStr ''Bolt'')], update_of 1 [(''quantity'', JNum 5)]]"
  obtain resp c' where r: "reconcile_test no_fault a_day example_conn order_A ?body = (resp, c')"
    by (cases "reconcile_test no_fault a_day example_conn order_A ?body")
  have s: "\<not> isl (fst (reconcile_test no_fault a_day example_conn order_A ?body))"
    by code_simp
  with r obtain resp' where resp: "resp = Inr resp'"
    by (cases resp) simp_all
  have e: "update_statements order_A (sort_key id_or_zero (itemsToUpdate ?body))
             = [UpdateRow [(''quantity'', JNum 5)] 1 order_A, UpdateRow [(''quantity'', JNum 7)] 2 order_A]"
    "map (\<lambda>s. case s of InsertRow k cols \<Rightarrow> map_of cols ''item_name'' | _ \<Rightarrow> None)
       (insert_statements order_A (commonOrderDetails a_day (sortItems ?body)) (itemsToInsert ?body))
     = [Some (JStr ''Nut''), Some (JStr ''Bolt'')]"
    by code_simp+
  from updates_by_id_inserts_as_submitted [of tod_id a_day order_A ?body no_fault example_conn resp' c'
      no_fault a_day resp' c'] r resp
  have "filter is_update (new_statements example_conn c')
          = update_statements order_A (sort_key id_or_zero (itemsToUpdate ?body))
      \<and> filter is_insert (new_statements example_conn c')
          = insert_statements order_A (commonOrderDetails a_day (sortItems ?body)) (itemsToInsert ?body)"
    by simp
  with e s r show ?thesis by simp
qed

text \<open>
  The claim as stated fails: the first update item submitted is the one for id 2, and the
  first UPDATE statement issued is the one for id 1, in both handlers.
\<close>

theorem submission_order_of_updates_counterexample:
  "filter is_update (operations tod_id a_day order_A
      (sortItems [update_of 2 [(''quantity'', JNum 7)], update_of 1 [(''quantity'', JNum 5)]]))
     = [UpdateRow [(''quantity'', JNum 5)] 1 order_A, UpdateRow [(''quantity'', JNum 7)] 2 order_A]
   \<and> filter is_update (issued (snd (reconcile_test no_fault a_day example_conn order_A
      [update_of 2 [(''quantity'', JNum 7)], update_of 1 [(''quantity'', JNum 5)]])))
     = [UpdateRow [(''quantity'', JNum 5)] 1 order_A, UpdateRow [(''quantity'', JNum 7)] 2 order_A]"
  by code_simp

text \<open>
  C10, as amended. In \<^verbatim>\<open>src/test.js\<close>, when the order has no row in storage, the call issues
  neither the ownership lookup of the delete set nor the per-item lookup of the update loop,
  and it never answers with one of their errors ("cannot delete", "does not exist",
  "belongs to order"). Every row that was in the table is still there afterwards. The call
  does not complete for delete items alone: a request with nothing to insert fails with
  "does not exist and no new items provided" right after the count, before any DELETE.
\<close>

theorem absent_order_skips_lookups:
  assumes "rows_of k (committed c) = []"
  shows "list_all (\<lambda>s. \<not> is_lookup s) (new_statements c (snd (reconcile_test F today c k body)))
       \<and> (\<forall>e. fst (reconcile_test F today c k body) = Inl e \<longrightarrow> \<not> is_lookup_error e)
       \<and> others k (committed (snd (reconcile_test F today c k body))) = committed c
       \<and> (\<not> blank k \<and> body \<noteq> [] \<and> itemsToInsert (sortItems body) = []
            \<and> \<not> F (length (issued c)) \<and> \<not> F (Suc (length (issued c))) \<longrightarrow>
          fst (reconcile_test F today c k body) = Inl (OrderMissingNoItems k)
        \<and> new_statements c (snd (reconcile_test F today c k body)) = [Begin, SelectCount k])"
proof -
  let ?a = "sortItems body"
  let ?t = "bnd (bnd (execute F Begin) (\<lambda>_.
     bnd (execute F (SelectCount k)) (\<lambda>_.
       if itemsToInsert ?a = []
       then throw (OrderMissingNoItems k)
       else
         bnd (handle_deletions F False k (itemsToDelete ?a)) (\<lambda>_.
         bnd (handle_updates F False k (itemsToUpdate ?a)) (\<lambda>_.
         bnd (handle_insertions F k (commonOrderDetails today ?a) (itemsToInsert ?a)) (\<lambda>_.
         update_common F False k (itemsToInsert ?a) (commonOrderDetails today ?a))))))) (\<lambda>_.
     bnd (execute F Commit) (\<lambda>_.
     bnd (execute F (SelectAll k)) (\<lambda>finalResult.
       ret \<lparr>data = res_rows finalResult,
            inserted = length (itemsToInsert ?a),
            updated = length (itemsToUpdate ?a),
            deleted = length (itemsToDelete ?a)\<rparr>)))"
  have t: "transaction_test F today k ?a (getConnection c) = ?t (getConnection c)"
    using mutations_test_absent [of k "getConnection c" F today ?a] assms
    by (simp add: transaction_test_def bnd_def)
  have em: "emits (\<lambda>s. \<not> is_lookup s) ?t"
    unfolding handle_deletions_absent update_common_def
    by (intro emits_bnd emits_if emits_execute emits_ret emits_throw
        emits_handle_updates_absent emits_handle_insertions) simp_all
  have ra: "raises (\<lambda>e. \<not> is_lookup_error e) ?t"
    unfolding handle_deletions_absent update_common_def
    by (intro raises_bnd raises_if raises_execute raises_ret raises_throw
        raises_handle_updates_absent raises_handle_insertions) simp_all
  obtain r c1 where rc: "?t (getConnection c) = (r, c1)"
    by (cases "?t (getConnection c)")
  have 1: "list_all (\<lambda>s. \<not> is_lookup s) (new_statements c (snd (reconcile_test F today c k body)))"
  proof (cases "blank k \<or> body = []")
    case True
    then show ?thesis by (auto simp: reconcile_test_def new_statements_def)
  next
    case False
    from emitsD [OF em rc] obtain L where "issued c1 = issued c @ L" "list_all (\<lambda>s. \<not> is_lookup s) L"
      by auto
    with False t rc show ?thesis
      by (cases r) (simp_all add: reconcile_test_def new_statements_def)
  qed
  have 2: "\<not> is_lookup_error e" if "fst (reconcile_test F today c k body) = Inl e" for e
  proof (cases "blank k \<or> body = []")
    case True
    with that show ?thesis by (auto simp: reconcile_test_def split: if_splits)
  next
    case False
    with that t rc have "r = Inl e"
      by (cases r) (simp_all add: reconcile_test_def)
    with raisesD [OF ra] rc show ?thesis by simp
  qed
  have 3: "others k (committed (snd (reconcile_test F today c k body))) = committed c"
    using reconcile_test_others [of k F today c body] assms
    by (simp add: others_def rows_of_def filter_empty_conv filter_id_conv)
  note 4 = reconcile_test_nothing_to_insert [OF assms, of body F today]
  from 1 2 3 4 show ?thesis by blast
qed

text \<open>
  Two instances. There is no order C, and id 3 belongs to order B. A request that deletes
  id 3 and inserts one item issues BEGIN, the count and the DELETE under order C, with no
  lookup; the call answers with the error of the database, which is not one of the lookup
  errors, and row 3 is kept. A request that only deletes id 3 stops after the count.
\<close>

theorem absent_order_skips_lookups_witness:
  "rows_of order_C (committed example_conn) = []
   \<and> \<not> blank order_C
   \<and> new_statements example_conn
         (snd (reconcile_test no_fault a_day example_conn order_C [delete_of 3, new_of [(''item_name'', JStr ''Nut'')]]))
       = [Begin, SelectCount order_C, DeleteReturning [3] order_C]
   \<and> list_all (\<lambda>s. \<not> is_lookup s) (new_statements example_conn
         (snd (reconcile_test no_fault a_day example_conn order_C [delete_of 3, new_of [(''item_name'', JStr ''Nut'')]])))
   \<and> fst (reconcile_test no_fault a_day example_conn order_C [delete_of 3, new_of [(''item_name'', JStr ''Nut'')]])
       = Inl (StorageError 2)
   \<and> \<not> is_lookup_error (StorageError 2)
   \<and> others order_C (committed
         (snd (reconcile_test no_fault a_day example_conn order_C [delete_of 3, new_of [(''item_name'', JStr ''Nut'')]])))
       = committed example_conn
   \<and> itemsToInsert (sortItems [delete_of 3]) = []
   \<and> \<not> no_fault (length (issued example_conn)) \<and> \<not> no_fault (Suc (length (issued example_conn)))
   \<and> fst (reconcile_test no_fault a_day example_conn order_C [delete_of 3]) = Inl (OrderMissingNoItems order_C)
   \<and> new_statements example_conn (snd (reconcile_test no_fault a_day example_conn order_C [delete_of 3]))
       = [Begin, SelectCount order_C]"
proof -
  let ?body = "[delete_of 3, new_of [(''item_name'', JStr ''Nut'')]]"
  have "length (rows_of order_C (committed example_conn)) = 0"
    by code_simp
  then have h1: "rows_of order_C (committed example_conn) = []"
    by simp
  have h2: "\<not> no_fault (length (issued example_conn))" "\<not> no_fault (Suc (length (issued example_conn)))"
    by (simp_all add: no_fault_def)
  have h3: "\<not> blank order_C"
    by code_simp
  have h4: "itemsToInsert (sortItems [delete_of 3]) = []"
    by code_simp
  have e: "new_statements example_conn (snd (reconcile_test no_fault a_day example_conn order_C ?body))
      = [Begin, SelectCount order_C, DeleteReturning [3] order_C]"
    by code_simp
  have "fst (mutations_test no_fault a_day order_C (sortItems ?body) (getConnection example_conn))
      = Inl (StorageError 2)"
    by code_simp
  from failure_test [OF this h3]
  have f: "fst (reconcile_test no_fault a_day example_conn order_C ?body) = Inl (StorageError 2)"
    by simp
  from absent_order_skips_lookups [OF h1, of no_fault a_day ?body] f
  have a: "list_all (\<lambda>s. \<not> is_lookup s) (new_statements example_conn
         (snd (reconcile_test no_fault a_day example_conn order_C ?body)))
     \<and> \<not> is_lookup_error (StorageError 2)
     \<and> others order_C (committed (snd (reconcile_test no_fault a_day example_conn order_C ?body)))
         = committed example_conn"
    by blast
  from absent_order_skips_lookups [OF h1, of no_fault a_day "[delete_of 3]"] h2 h3 h4
  have b: "fst (reconcile_test no_fault a_day example_conn order_C [delete_of 3]) = Inl (OrderMissingNoItems order_C)
     \<and> new_statements example_conn (snd (reconcile_test no_fault a_day example_conn order_C [delete_of 3]))
       = [Begin, SelectCount order_C]"
    by blast
  from h1 h2 h3 h4 e f a b show ?thesis by blast
qed

text \<open>
  The claim as stated fails: there is no order C and id 3 belongs to order B; the request
  that deletes id 3 under order C does not complete. It is answered with "Order C does not
  exist and no new items provided", after BEGIN and the count, and no DELETE is issued.
\<close>

theorem delete_only_on_absent_order_counterexample:
  "length (rows_of order_C (committed example_conn)) = 0
   \<and> map rorder (filter (\<lambda>r. rid r = 3) (committed example_conn)) = [order_B]
   \<and> length (itemsToDelete (sortItems [delete_of 3])) = 1
   \<and> map_sum id (\<lambda>_. ()) (fst (reconcile_test no_fault a_day example_conn order_C [delete_of 3]))
       = Inl (OrderMissingNoItems order_C)
   \<and> issued (snd (reconcile_test no_fault a_day example_conn order_C [delete_of 3]))
       = [Begin, SelectCount order_C]"
  by code_simp




text \<open>
  C3, as amended. In \<^verbatim>\<open>src/test.js\<close>, for an order that has rows in storage, a call
  with an update item whose id is stored under a different order fails and commits nothing.
  The error is the one naming the item, the order found and the order requested when
  nothing fails before the item is reached: no delete items, the update items sorted before
  it all stored under the requested order, no error from the database. When the order has
  no row the lookup is skipped (see C10), and \<^verbatim>\<open>src/routes/orders.js\<close> has no lookup; but
  in every case, in both handlers, the rows of the other orders, the row of that id among
  them, are in the committed table after the call exactly as before.
\<close>

theorem cross_order_update_rejected:
  assumes "\<not> blank k" and "rows_of k (committed c) \<noteq> []"
    and "x \<in> set body" and "has_id x" and "\<not> item_deleted x"
    and "owner_is (committed c) (id_or_zero x) found" and "found \<noteq> k"
  shows "isl (fst (reconcile_test F today c k body))
       \<and> committed (snd (reconcile_test F today c k body)) = committed c
       \<and> ((\<forall>n. \<not> F n) \<and> itemsToDelete (sortItems body) = []
            \<and> itemsToUpdate (sortItems body) = pre @ x # post
            \<and> (\<forall>u\<in>set pre. owner_is (committed c) (id_or_zero u) k) \<longrightarrow>
          fst (reconcile_test F today c k body) = Inl (ItemWrongOrder (id_or_zero x) found k))
       \<and> others k (committed (snd (reconcile_test F today c k body))) = others k (committed c)
       \<and> others k (committed (snd (reconcile_routes G tod now c k body))) = others k (committed c)"
proof -
  from assms(3) have ne: "body \<noteq> []" by auto
  from assms(3,4,5) have x: "x \<in> set (itemsToUpdate (sortItems body))"
    by (simp add: itemsToUpdate_def sortItems_def)
  have "isl (fst (mutations_test F today k (sortItems body) (getConnection c)))"
    by (rule mutations_reach_wrong_order [OF _ x assms(7)]) (simp_all add: assms(2,6))
  then obtain e where "fst (mutations_test F today k (sortItems body) (getConnection c)) = Inl e"
    by (cases "fst (mutations_test F today k (sortItems body) (getConnection c))") simp_all
  from failure_test [OF this assms(1) ne]
  have 1: "isl (fst (reconcile_test F today c k body))"
    "committed (snd (reconcile_test F today c k body)) = committed c"
    by simp_all
  have 2: "fst (reconcile_test F today c k body) = Inl (ItemWrongOrder (id_or_zero x) found k)"
    if h: "\<forall>n. \<not> F n" "itemsToDelete (sortItems body) = []"
      "itemsToUpdate (sortItems body) = pre @ x # post"
      "\<forall>u\<in>set pre. owner_is (committed c) (id_or_zero u) k"
  proof -
    have "fst (mutations_test F today k (sortItems body) (getConnection c))
            = Inl (ItemWrongOrder (id_or_zero x) found k)"
      by (rule mutations_name_wrong_order [OF h(1) assms(7) _ h(2,3)])
         (simp_all add: assms(2,6) h(4))
    from failure_test [OF this assms(1) ne] show ?thesis by simp
  qed
  from 1 2 reconcile_test_others [of k F today c body] reconcile_routes_others [of k G tod now c body]
  show ?thesis by blast
qed

text \<open>
  An instance: under order A, the request updates id 3 (a row of order B) and id 1. Sorted
  by id, the update of row 1 runs first and passes; the one of id 3 is refused, and the
  update of row 1 is not committed.
\<close>

theorem cross_order_update_rejected_witness:
  "\<not> blank order_A
   \<and> length (rows_of order_A (committed example_conn)) = 2
   \<and> has_id (update_of 3 [(''quantity'', JNum 9)])
   \<and> \<not> item_deleted (update_of 3 [(''quantity'', JNum 9)])
   \<and> owner_is (committed example_conn) (id_or_zero (update_of 3 [(''quantity'', JNum 9)])) order_B
   \<and> itemsToDelete (sortItems [update_of 3 [(''quantity'', JNum 9)], update_of 1 [(''quantity'', JNum 5)]]) = []
   \<and> itemsToUpdate (sortItems [update_of 3 [(''quantity'', JNum 9)], update_of 1 [(''quantity'', JNum 5)]])
       = [update_of 1 [(''quantity'', JNum 5)]] @ update_of 3 [(''quantity'', JNum 9)] # []
   \<and> owner_is (committed example_conn) (id_or_zero (update_of 1 [(''quantity'', JNum 5)])) order_A
   \<and> fst (reconcile_test no_fault a_day example_conn order_A
         [update_of 3 [(''quantity'', JNum 9)], update_of 1 [(''quantity'', JNum 5)]])
       = Inl (ItemWrongOrder 3 order_B order_A)
   \<and> committed (snd (reconcile_test no_fault a_day example_conn order_A
         [update_of 3 [(''quantity'', JNum 9)], update_of 1 [(''quantity'', JNum 5)]]))
       = committed example_conn"
proof -
  let ?x = "update_of 3 [(''quantity'', JNum 9)]"
  let ?u = "update_of 1 [(''quantity'', JNum 5)]"
  have h1: "\<not> blank order_A"
    by code_simp
  have l: "length (rows_of order_A (committed example_conn)) = 2"
    by code_simp
  then have h2: "rows_of order_A (committed example_conn) \<noteq> []"
    by auto
  have h3: "?x \<in> set [?x, ?u]"
    by simp
  have h4: "has_id ?x" "\<not> item_deleted ?x"
    by (simp_all add: has_id_def update_of_def)
  have h5: "owner_is (committed example_conn) (id_or_zero ?x) order_B"
    by code_simp
  have h6: "order_B \<noteq> order_A"
    by (simp add: order_A_def order_B_def)
  have h7: "\<forall>n. \<not> no_fault n"
    by (simp add: no_fault_def)
  have h8: "itemsToDelete (sortItems [?x, ?u]) = []"
    by code_simp
  have h9: "itemsToUpdate (sortItems [?x, ?u]) = [?u] @ ?x # []"
    by code_simp
  have h10: "owner_is (committed example_conn) (id_or_zero ?u) order_A"
    by code_simp
  have i: "id_or_zero ?x = 3"
    by (simp add: id_or_zero_def update_of_def)
  from cross_order_update_rejected [OF h1 h2 h3 h4 h5 h6, of no_fault a_day "[?u]" "[]"]
    h7 h8 h9 h10
  have "fst (reconcile_test no_fault a_day example_conn order_A [?x, ?u]) = Inl (ItemWrongOrder 3 order_B order_A)
      \<and> committed (snd (reconcile_test no_fault a_day example_conn order_A [?x, ?u])) = committed example_conn"
    unfolding i by simp
  with h1 l h4 h5 h8 h9 h10 show ?thesis by blast
qed

text \<open>
  The claim as stated fails. In \<^verbatim>\<open>src/test.js\<close>, with no order C in storage, a call with
  an update item for id 3 (a row of order B) succeeds when that item has no allowed field,
  and fails with "no record found", which names no found order, when it has one. In
  \<^verbatim>\<open>src/routes/orders.js\<close>, the same update item under the existing order A goes through
  without any error.
\<close>

theorem cross_order_update_counterexample:
  "owner_is (committed example_conn) 3 order_B
   \<and> \<not> isl (fst (reconcile_test no_fault a_day example_conn order_C
         [update_of 3 [(''customer_name'', JStr ''Zed'')], new_of [(''item_name'', JStr ''Nut'')]]))
   \<and> fst (reconcile_test no_fault a_day example_conn order_C
         [update_of 3 [(''quantity'', JNum 9)], new_of [(''item_name'', JStr ''Nut'')]])
       = Inl (NoRecordFound 3 order_C)
   \<and> \<not> isl (fst (reconcile_routes no_fault tod_id a_day example_conn order_A
         [update_of 3 [(''quantity'', JNum 9)]]))"
proof -
  have "owner_is (committed example_conn) 3 order_B"
    by code_simp
  moreover have "\<not> isl (fst (reconcile_test no_fault a_day example_conn order_C
         [update_of 3 [(''customer_name'', JStr ''Zed'')], new_of [(''item_name'', JStr ''Nut'')]]))"
    by code_simp
  moreover have "\<not> isl (fst (reconcile_routes no_fault tod_id a_day example_conn order_A
         [update_of 3 [(''quantity'', JNum 9)]]))"
    by code_simp
  moreover have "fst (reconcile_test no_fault a_day example_conn order_C
         [update_of 3 [(''quantity'', JNum 9)], new_of [(''item_name'', JStr ''Nut'')]])
       = Inl (NoRecordFound 3 order_C)"
  proof -
    have "fst (mutations_test no_fault a_day order_C
            (sortItems [update_of 3 [(''quantity'', JNum 9)], new_of [(''item_name'', JStr ''Nut'')]])
            (getConnection example_conn)) = Inl (NoRecordFound 3 order_C)"
      by code_simp
    moreover have "\<not> blank order_C"
      by code_simp
    ultimately show ?thesis
      using failure_test by blast
  qed
  ultimately show ?thesis by blast
qed




text \<open>
  C5, as amended. Take an order with rows in storage, ids unique and not 0, and submit
  exactly these rows back (their ids, no deletion flag, the values they have), the database
  raising no error. Both handlers report inserted 0, deleted 0 and updated equal to the
  number of items submitted: the updated count is the size of the update group, not the
  number of rows that changed. The rows come back as they were, by ascending id, and the
  committed table is unchanged, provided that, in \<^verbatim>\<open>src/test.js\<close>, the order-level columns
  of the rows already equal the common order details the call computes (which come from the
  item of lowest id and fall back to defaults for the fields the items do not carry) and,
  in \<^verbatim>\<open>src/routes/orders.js\<close>, \<^verbatim>\<open>toOracleDate\<close> gives back the stored dates.
\<close>

theorem resubmitting_persisted_rows:
  assumes "\<not> blank k" and "\<forall>n. \<not> F n" and "\<forall>n. \<not> G n"
    and "rows_of k (committed c) \<noteq> []"
    and "distinct (map rid (committed c))"
    and "\<forall>r\<in>set (rows_of k (committed c)). rid r \<noteq> 0"
  shows "((\<forall>r\<in>set (rows_of k (committed c)). \<forall>f\<in>set commonFields.
            rcols r f = detail (commonOrderDetails today
              (sortItems (map (item_of_row cols) (rows_of k (committed c))))) f) \<longrightarrow>
          fst (reconcile_test F today c k (map (item_of_row cols) (rows_of k (committed c))))
            = Inr \<lparr>data = sort_key rid (rows_of k (committed c)), inserted = 0,
                   updated = length (rows_of k (committed c)), deleted = 0\<rparr>
        \<and> committed (snd (reconcile_test F today c k (map (item_of_row cols) (rows_of k (committed c)))))
            = committed c)
       \<and> ((\<forall>r\<in>set (rows_of k (committed c)). dates_kept tod cols r) \<longrightarrow>
          fst (reconcile_routes G tod now c k (map (item_of_row cols) (rows_of k (committed c))))
            = Inr \<lparr>data = sort_key rid (rows_of k (committed c)), inserted = 0,
                   updated = length (rows_of k (committed c)), deleted = 0\<rparr>
        \<and> committed (snd (reconcile_routes G tod now c k (map (item_of_row cols) (rows_of k (committed c)))))
            = committed c)"
  using resubmit_test [OF assms(1,2,4,5,6), of today cols]
    resubmit_routes [OF assms(1,3,4,5,6), of tod cols now]
  by blast

text \<open>
  An instance: the two rows of order A, submitted with their fourteen order-level columns
  and the quantity.
\<close>

theorem resubmitting_persisted_rows_witness:
  "\<not> blank order_A
   \<and> length (rows_of order_A (committed example_conn)) = 2
   \<and> distinct (map rid (committed example_conn))
   \<and> list_all (\<lambda>r. rid r \<noteq> 0) (rows_of order_A (committed example_conn))
   \<and> list_all (\<lambda>r. list_all (\<lambda>f. rcols r f = detail (commonOrderDetails a_day
            (sortItems (map (item_of_row header_cols) (rows_of order_A (committed example_conn))))) f)
          commonFields) (rows_of order_A (committed example_conn))
   \<and> map_sum id (\<lambda>r. (inserted r, updated r, deleted r, map rid (data r)))
        (fst (reconcile_test no_fault a_day example_conn order_A
          (map (item_of_row header_cols) (rows_of order_A (committed example_conn)))))
       = Inr (0, 2, 0, [1, 2])
   \<and> committed (snd (reconcile_test no_fault a_day example_conn order_A
          (map (item_of_row header_cols) (rows_of order_A (committed example_conn)))))
       = committed example_conn
   \<and> map_sum id (\<lambda>r. (inserted r, updated r, deleted r, map rid (data r)))
        (fst (reconcile_routes no_fault tod_id a_day example_conn order_A
          (map (item_of_row header_cols) (rows_of order_A (committed example_conn)))))
       = Inr (0, 2, 0, [1, 2])"
proof -
  let ?rs = "rows_of order_A (committed example_conn)"
  have h1: "\<not> blank order_A"
    by code_simp
  have h2: "\<forall>n. \<not> no_fault n"
    by (simp add: no_fault_def)
  have l: "length ?rs = 2"
    by code_simp
  then have h4: "?rs \<noteq> []"
    by auto
  have h5: "distinct (map rid (committed example_conn))"
    by code_simp
  have a6: "list_all (\<lambda>r. rid r \<noteq> 0) ?rs"
    by code_simp
  then have h6: "\<forall>r\<in>set ?rs. rid r \<noteq> 0"
    by (simp add: list_all_iff)
  have a7: "list_all (\<lambda>r. list_all (\<lambda>f. rcols r f = detail (commonOrderDetails a_day
            (sortItems (map (item_of_row header_cols) ?rs))) f) commonFields) ?rs"
    by code_simp
  then have h7: "\<forall>r\<in>set ?rs. \<forall>f\<in>set commonFields. rcols r f = detail (commonOrderDetails a_day
            (sortItems (map (item_of_row header_cols) ?rs))) f"
    by (simp add: list_all_iff)
  have a8: "list_all (dates_kept tod_id header_cols) ?rs"
    by code_simp
  then have h8: "\<forall>r\<in>set ?rs. dates_kept tod_id header_cols r"
    by (simp add: list_all_iff)
  have ids: "map rid (sort_key rid ?rs) = [1, 2]"
    by code_simp
  from resubmitting_persisted_rows [OF h1 h2 h2 h4 h5 h6, of a_day header_cols tod_id a_day] h7 h8
  have "fst (reconcile_test no_fault a_day example_conn order_A (map (item_of_row header_cols) ?rs))
            = Inr \<lparr>data = sort_key rid ?rs, inserted = 0, updated = length ?rs, deleted = 0\<rparr>"
    and "committed (snd (reconcile_test no_fault a_day example_conn order_A (map (item_of_row header_cols) ?rs)))
            = committed example_conn"
    and "fst (reconcile_routes no_fault tod_id a_day example_conn order_A (map (item_of_row header_cols) ?rs))
            = Inr \<lparr>data = sort_key rid ?rs, inserted = 0, updated = length ?rs, deleted = 0\<rparr>"
    by blast+
  with h1 l h5 a6 a7 ids show ?thesis by simp
qed

text \<open>
  The claim as stated fails. The two rows of order A submitted back give updated = 2, not 0,
  in both handlers; and when the items carry only the customer name and the quantity,
  \<^verbatim>\<open>src/test.js\<close> writes the default status "pending" over the rows, whose status was NULL:
  the rows returned are not the rows that were persisted.
\<close>

theorem resubmitting_counts_updates_counterexample:
  "length (rows_of order_A (committed example_conn)) = 2
   \<and> map_sum id (\<lambda>r. (inserted r, updated r, deleted r))
        (fst (reconcile_test no_fault a_day example_conn order_A
          (map (item_of_row [''customer_name'', ''quantity'']) (rows_of order_A (committed example_conn)))))
       = Inr (0, 2, 0)
   \<and> map_sum id (\<lambda>r. (inserted r, updated r, deleted r))
        (fst (reconcile_routes no_fault tod_id a_day example_conn order_A
          (map (item_of_row [''customer_name'', ''quantity'']) (rows_of order_A (committed example_conn)))))
       = Inr (0, 2, 0)
   \<and> map (\<lambda>r. rcols r ''status'') (rows_of order_A (committed example_conn)) = [JNull, JNull]
   \<and> map_sum id (\<lambda>r. map (\<lambda>r. rcols r ''status'') (data r))
        (fst (reconcile_test no_fault a_day example_conn order_A
          (map (item_of_row [''customer_name'', ''quantity'']) (rows_of order_A (committed example_conn)))))
       = Inr [JStr ''pending'', JStr ''pending'']"
  by code_simp

text \<open>
  C9, as amended. The two handlers are not equivalent. What they share: the validation of
  the request (the same rejection of a blank order number and of an empty list, before any
  storage access), the partition of the sorted items and so the three counts they report
  when both succeed, the allow-list of updatable columns (the two lists have the same
  members), and the scope of their writes: the rows of the other orders are the same after
  either call. They differ in that \<^verbatim>\<open>src/routes/orders.js\<close> has no existence lookup, no
  verification of the ids, no test of the affected row count and no header propagation, and
  takes the order-level values of an inserted row from the item itself.
\<close>

theorem handlers_agree_on_validation_and_counts:
  "(blank k \<or> body = [] \<longrightarrow>
      reconcile_test F today c k body = reconcile_routes G tod now c k body)
   \<and> (reconcile_test F today c k body = (Inr r1, c1)
        \<and> reconcile_routes G tod now c k body = (Inr r2, c2) \<longrightarrow>
      inserted r1 = inserted r2 \<and> updated r1 = updated r2 \<and> deleted r1 = deleted r2)
   \<and> filterFields allowedFields_test fs = filterFields allowedFields_routes fs
   \<and> others k (committed (snd (reconcile_test F today c k body)))
       = others k (committed (snd (reconcile_routes G tod now c k body)))"
proof -
  have 1: "reconcile_test F today c k body = reconcile_routes G tod now c k body"
    if "blank k \<or> body = []"
    using that by (auto simp: reconcile_test_def reconcile_routes_def)
  have 2: "inserted r1 = inserted r2 \<and> updated r1 = updated r2 \<and> deleted r1 = deleted r2"
    if t: "reconcile_test F today c k body = (Inr r1, c1)"
      and r: "reconcile_routes G tod now c k body = (Inr r2, c2)"
  proof -
    from reconcile_test_success [OF t] have "r1 = \<lparr>data = data r1,
        inserted = length (itemsToInsert (sortItems body)),
        updated = length (itemsToUpdate (sortItems body)),
        deleted = length (itemsToDelete (sortItems body))\<rparr>"
      by auto
    then have "inserted r1 = length (itemsToInsert (sortItems body))"
      "updated r1 = length (itemsToUpdate (sortItems body))"
      "deleted r1 = length (itemsToDelete (sortItems body))"
      by (metis response.select_convs)+
    with reconcile_routes_counts [OF r] show ?thesis by simp
  qed
  have 3: "filterFields allowedFields_test fs = filterFields allowedFields_routes fs"
    by (simp add: filterFields_def same_allowed_fields)
  have 4: "others k (committed (snd (reconcile_test F today c k body)))
       = others k (committed (snd (reconcile_routes G tod now c k body)))"
    by (simp add: reconcile_test_others reconcile_routes_others)
  from 1 2 3 4 show ?thesis by blast
qed

text \<open>
  An instance: the empty list, and a request under order A that updates row 2 and inserts
  one item, on which both handlers succeed and report the same counts.
\<close>

theorem handlers_agree_on_validation_and_counts_witness:
  "reconcile_test no_fault a_day example_conn order_A []
     = reconcile_routes no_fault tod_id a_day example_conn order_A []
   \<and> \<not> isl (fst (reconcile_test no_fault a_day example_conn order_A
        [update_of 2 [(''quantity'', JNum 7)], new_of [(''item_name'', JStr ''Nut'')]]))
   \<and> \<not> isl (fst (reconcile_routes no_fault tod_id a_day example_conn order_A
        [update_of 2 [(''quantity'', JNum 7)], new_of [(''item_name'', JStr ''Nut'')]]))
   \<and> map_sum id (\<lambda>r. (inserted r, updated r, deleted r))
        (fst (reconcile_test no_fault a_day example_conn order_A
          [update_of 2 [(''quantity'', JNum 7)], new_of [(''item_name'', JStr ''Nut'')]]))
     = map_sum id (\<lambda>r. (inserted r, updated r, deleted r))
        (fst (reconcile_routes no_fault tod_id a_day example_conn order_A
          [update_of 2 [(''quantity'', JNum 7)], new_of [(''item_name'', JStr ''Nut'')]]))"
proof -
  let ?body = "[update_of 2 [(''quantity'', JNum 7)], new_of [(''item_name'', JStr ''Nut'')]]"
  obtain a c1 where t: "reconcile_test no_fault a_day example_conn order_A ?body = (a, c1)"
    by (cases "reconcile_test no_fault a_day example_conn order_A ?body")
  obtain b c2 where r: "reconcile_routes no_fault tod_id a_day example_conn order_A ?body = (b, c2)"
    by (cases "reconcile_routes no_fault tod_id a_day example_conn order_A ?body")
  have s1: "\<not> isl (fst (reconcile_test no_fault a_day example_conn order_A ?body))"
    by code_simp
  have s2: "\<not> isl (fst (reconcile_routes no_fault tod_id a_day example_conn order_A ?body))"
    by code_simp
  from s1 t obtain r1 where a: "a = Inr r1" by (cases a) simp_all
  from s2 r obtain r2 where b: "b = Inr r2" by (cases b) simp_all
  from handlers_agree_on_validation_and_counts [of order_A ?body no_fault a_day example_conn
      no_fault tod_id a_day r1 c1 r2 c2] t r a b
  have "inserted r1 = inserted r2 \<and> updated r1 = updated r2 \<and> deleted r1 = deleted r2"
    by simp
  moreover from handlers_agree_on_validation_and_counts [of order_A "[]" no_fault a_day example_conn
      no_fault tod_id a_day]
  have "reconcile_test no_fault a_day example_conn order_A []
     = reconcile_routes no_fault tod_id a_day example_conn order_A []"
    by simp
  ultimately show ?thesis using s1 s2 t r a b by simp
qed

text \<open>
  The claim as stated fails. Under order A, an update item for the id 99, which no row has,
  makes \<^verbatim>\<open>src/test.js\<close> fail and \<^verbatim>\<open>src/routes/orders.js\<close> succeed. And on the request that
  inserts one item without a customer name both succeed, with different tables afterwards:
  \<^verbatim>\<open>src/test.js\<close> has written the empty default name on the three rows of the order,
  \<^verbatim>\<open>src/routes/orders.js\<close> has left Acme on the two old rows.
\<close>

theorem handlers_not_equivalent_counterexample:
  "isl (fst (reconcile_test no_fault a_day example_conn order_A [update_of 99 [(''quantity'', JNum 1)]]))
   \<and> \<not> isl (fst (reconcile_routes no_fault tod_id a_day example_conn order_A
        [update_of 99 [(''quantity'', JNum 1)]]))
   \<and> \<not> isl (fst (reconcile_test no_fault a_day example_conn order_A [new_of [(''item_name'', JStr ''Nut'')]]))
   \<and> \<not> isl (fst (reconcile_routes no_fault tod_id a_day example_conn order_A
        [new_of [(''item_name'', JStr ''Nut'')]]))
   \<and> map (\<lambda>r. rcols r ''customer_name'') (rows_of order_A (committed (snd
        (reconcile_test no_fault a_day example_conn order_A [new_of [(''item_name'', JStr ''Nut'')]]))))
     = [JStr [], JStr [], JStr []]
   \<and> map (\<lambda>r. rcols r ''customer_name'') (rows_of order_A (committed (snd
        (reconcile_routes no_fault tod_id a_day example_conn order_A [new_of [(''item_name'', JStr ''Nut'')]]))))
     = [JStr ''Acme'', JStr ''Acme'', JStr []]"
  by code_simp

end
